theory Spec2Isabelle
  imports Main "HOL-Library.Char_ord" "HOL-Library.List_Lexorder" "HOL-Library.AList"
begin

section \<open>JavaScript string and value helpers\<close>

text \<open>
  Strings are lists of code units. Where only equality, prefixes, suffixes and
  substrings of a string matter, its code units are characters; the names of
  privileges, which a regular expression inspects, are lists of UTF-16 code
  unit numbers (see \<open>utf16\<close> below). The helpers below are the
  \<^verbatim>\<open>String.prototype\<close> methods the ingestion and diff code call, and the
  \<^verbatim>\<open>a || b\<close> idiom on values that may be \<^verbatim>\<open>null\<close>, \<^verbatim>\<open>undefined\<close> or the empty
  string (all three are falsy). A DOM lookup that finds nothing
  (\<^verbatim>\<open>getAttribute\<close> returning \<^verbatim>\<open>null\<close>, \<^verbatim>\<open>querySelector(..)?.textContent\<close> being
  \<^verbatim>\<open>undefined\<close>) is \<open>None\<close>.
\<close>

definition startsWith :: "'a list \<Rightarrow> 'a list \<Rightarrow> bool" where
  "startsWith s p = (take (length p) s = p)"

definition endsWith :: "'a list \<Rightarrow> 'a list \<Rightarrow> bool" where
  "endsWith s p = (length p \<le> length s \<and> drop (length s - length p) s = p)"

fun includes_str :: "string \<Rightarrow> string \<Rightarrow> bool" where
  "includes_str [] p = (p = [])"
| "includes_str (c # cs) p = (startsWith (c # cs) p \<or> includes_str cs p)"

definition substring :: "nat \<Rightarrow> 'a list \<Rightarrow> 'a list" where
  "substring n s = drop n s"

definition orElse :: "'a list option \<Rightarrow> 'a list \<Rightarrow> 'a list" where
  "orElse v d = (case v of None \<Rightarrow> d | Some s \<Rightarrow> if s = [] then d else s)"

text \<open>
  A string as the list of the numbers of its UTF-16 code units (each below
  65536 in an actual string; nothing below depends on the bound), and the code
  units of a string literal of the source.
\<close>

type_synonym utf16 = "nat list"

definition utf16 :: "string \<Rightarrow> utf16" where
  "utf16 s = map of_char s"

definition orUndefined :: "'a list option \<Rightarrow> 'a list option" where
  "orUndefined v = (case v of None \<Rightarrow> None | Some s \<Rightarrow> if s = [] then None else Some s)"

section \<open>JavaScript collections\<close>

text \<open>
  A \<^verbatim>\<open>Map\<close> keeps its keys in the order of their first insertion, and \<^verbatim>\<open>set\<close>
  on a key already present replaces the value where it stands: an association
  list updated in place. \<^verbatim>\<open>new Map(pairs)\<close> inserts the pairs one by one.
\<close>

definition mapSet :: "('k \<times> 'v) list \<Rightarrow> 'k \<Rightarrow> 'v \<Rightarrow> ('k \<times> 'v) list" where
  "mapSet m k v = AList.update k v m"

definition mapGet :: "('k \<times> 'v) list \<Rightarrow> 'k \<Rightarrow> 'v option" where
  "mapGet m k = map_of m k"

definition mapKeys :: "('k \<times> 'v) list \<Rightarrow> 'k list" where
  "mapKeys m = map fst m"

definition mapValues :: "('k \<times> 'v) list \<Rightarrow> 'v list" where
  "mapValues m = map snd m"

definition newMap :: "('k \<times> 'v) list \<Rightarrow> ('k \<times> 'v) list" where
  "newMap pairs = foldl (\<lambda>m kv. mapSet m (fst kv) (snd kv)) [] pairs"

text \<open>
  \<^verbatim>\<open>Array.from(new Set(xs))\<close>: the elements of \<open>xs\<close> in the order of their
  first occurrence.
\<close>

definition setAdd :: "'a list \<Rightarrow> 'a \<Rightarrow> 'a list" where
  "setAdd seen x = (if x \<in> set seen then seen else seen @ [x])"

definition arrayFromSet :: "'a list \<Rightarrow> 'a list" where
  "arrayFromSet xs = foldl setAdd [] xs"

text \<open>
  \<^verbatim>\<open>xs.find(p)\<close> followed by assignments to the fields of the element found:
  the array holds the object, so the first element satisfying \<open>p\<close> is replaced
  by its updated value. \<open>None\<close> when \<^verbatim>\<open>find\<close> returns \<^verbatim>\<open>undefined\<close>.
\<close>

fun mutateFound :: "('a \<Rightarrow> bool) \<Rightarrow> ('a \<Rightarrow> 'a) \<Rightarrow> 'a list \<Rightarrow> 'a list option" where
  "mutateFound p f [] = None"
| "mutateFound p f (x # xs) =
     (if p x then Some (f x # xs) else map_option ((#) x) (mutateFound p f xs))"

text \<open>\<^verbatim>\<open>xs.findIndex(p)\<close>, with \<open>None\<close> for \<^verbatim>\<open>-1\<close>.\<close>

fun findIndex :: "('a \<Rightarrow> bool) \<Rightarrow> 'a list \<Rightarrow> nat option" where
  "findIndex p [] = None"
| "findIndex p (x # xs) = (if p x then Some 0 else map_option Suc (findIndex p xs))"

text \<open>\<^verbatim>\<open>xs.filter((v, i, a) => ...)\<close>: a filter that sees the index.\<close>

definition filterIndexed :: "('a \<Rightarrow> nat \<Rightarrow> bool) \<Rightarrow> 'a list \<Rightarrow> 'a list" where
  "filterIndexed p xs = map fst (filter (\<lambda>(v, i). p v i) (zip xs [0..<length xs]))"

text \<open>
  \<^verbatim>\<open>s.split(sep)\<close> for a one-character separator, and \<^verbatim>\<open>pop()\<close> on the result
  (\<^verbatim>\<open>undefined\<close> on an empty array).
\<close>

fun splitOn :: "char \<Rightarrow> string \<Rightarrow> string list" where
  "splitOn sep [] = [[]]"
| "splitOn sep (c # cs) =
     (if c = sep then [] # splitOn sep cs
      else (case splitOn sep cs of [] \<Rightarrow> [[c]] | w # ws \<Rightarrow> (c # w) # ws))"

definition pop :: "'a list \<Rightarrow> 'a option" where
  "pop xs = (if xs = [] then None else Some (last xs))"

text \<open>\<^verbatim>\<open>toLowerCase\<close> on the letters A to Z.\<close>

definition toLowerChar :: "char \<Rightarrow> char" where
  "toLowerChar c =
     (case map_of (zip ''ABCDEFGHIJKLMNOPQRSTUVWXYZ'' ''abcdefghijklmnopqrstuvwxyz'') c of
        Some l \<Rightarrow> l
      | None \<Rightarrow> c)"

definition toLowerCase :: "string \<Rightarrow> string" where
  "toLowerCase s = map toLowerChar s"

text \<open>\<^verbatim>\<open>a || b\<close> on two strings.\<close>

definition orStr :: "string \<Rightarrow> string \<Rightarrow> string" where
  "orStr a b = (if a = [] then b else a)"

section \<open>The data model (types.ts)\<close>

datatype FileType = Xml | Xaml | Json | Js | Css | OtherFile

record SolutionFile =
  f_name :: string
  f_path :: string
  f_content :: string
  f_type :: FileType

text \<open>
  The values of the \<^verbatim>\<open>type\<close> field of a component. The interface allows the
  twelve strings of \<^verbatim>\<open>ComponentType\<close>; at run time the field of a root component
  can also hold \<open>Inherited k\<close>, the value that the key \<open>k\<close> of \<^verbatim>\<open>Object.prototype\<close>
  names (see \<open>componentTypeOf\<close>), which is equal to none of the strings.
\<close>

datatype ComponentType =
  App | ModelApp | Flow | Table | WebResource | EnvVar | Plugin | SecurityRole
  | Sitemap | ConnectionRef | CustomControl | Other | Inherited string

record Field =
  fd_name :: string
  fd_displayName :: string
  fd_type :: string

text \<open>
  The relationship type is whatever text the descriptor holds: the parser
  casts it without a check.
\<close>

record EntityRelationship =
  er_name :: string
  er_type :: string
  er_from :: string
  er_to :: string

record EntityMetadata =
  e_logicalName :: string
  e_displayName :: string
  e_relationships :: "EntityRelationship list"
  e_fields :: "Field list"

text \<open>
  The privilege records of \<^verbatim>\<open>SecurityRoleMetadata\<close> (types.ts). \<^verbatim>\<open>depth\<close>,
  \<^verbatim>\<open>action\<close> and \<^verbatim>\<open>entity\<close> are declared optional there, so they are options
  here.
\<close>

record Privilege =
  p_privilegeId :: utf16
  p_name :: utf16
  p_level :: string
  p_depth :: "string option"
  p_action :: "utf16 option"
  p_entity :: "utf16 option"

record SecurityRoleMetadata =
  r_id :: string
  r_name :: string
  r_isManaged :: bool
  r_privileges :: "Privilege list"

record ModelAppComponent =
  mc_type :: string
  mc_schemaName :: "string option"
  mc_id :: "string option"

record ModelAppMetadata =
  m_uniqueName :: string
  m_displayName :: string
  m_version :: string
  m_formFactor :: string
  m_clientType :: string
  m_navigationType :: string
  m_components :: "ModelAppComponent list"
  m_roles :: "string list"
  m_elements :: "(string \<times> string) list"
  m_settings :: "(string \<times> string) list"

text \<open>
  A value produced by \<^verbatim>\<open>JSON.parse\<close> that the core stores and never inspects
  (the fields typed \<^verbatim>\<open>any\<close>, the control counts and the layout).
\<close>

typedecl json

record CanvasAppMetadata =
  ca_name :: string
  ca_displayName :: string
  ca_description :: string
  ca_appId :: string
  ca_path :: string
  ca_isPage :: bool
  ca_appVersion :: "string option"
  ca_createdClientVersion :: "string option"
  ca_minClientVersion :: "string option"
  ca_tags :: "json option"
  ca_databaseReferences :: "json option"
  ca_connectionReferences :: "json option"
  ca_cdsDependencies :: "json option"
  ca_canvasAppType :: "string option"
  ca_dataSources :: "string list option"
  ca_controlCount :: "json option"
  ca_layout :: "json option"

text \<open>
  \<^verbatim>\<open>LogicalComponent.metadata\<close> is typed \<^verbatim>\<open>any\<close> and optional. The parser stores
  one of four payloads in it, or leaves it \<^verbatim>\<open>undefined\<close>.
\<close>

datatype Metadata =
  RoleMeta SecurityRoleMetadata
  | TableMeta "Field list"
  | ModelMeta ModelAppMetadata
  | CanvasMeta CanvasAppMetadata

record LogicalComponent =
  c_id :: string
  c_displayName :: string
  c_logicalName :: string
  c_type :: ComponentType
  c_description :: "string option"
  c_files :: "string list"
  c_metadata :: "Metadata option"

record SolutionMetadata =
  sm_uniqueName :: string
  sm_version :: string
  sm_localizedName :: string
  sm_publisher :: string
  sm_components :: "LogicalComponent list"
  sm_entities :: "EntityMetadata list"
  sm_canvasApps :: "CanvasAppMetadata list option"

record Solution =
  s_files :: "SolutionFile list"
  s_metadata :: SolutionMetadata

section \<open>Archive reader (step 1 of parseSolutionZip)\<close>

text \<open>
  An archive entry as the zip library presents it: its path, its name, the
  directory flag, and what \<^verbatim>\<open>async('string')\<close> and \<^verbatim>\<open>async('uint8array')\<close>
  resolve to (the entry's bytes decoded as text, and the bytes themselves).
\<close>

record ZipEntry =
  z_relativePath :: string
  z_name :: string
  z_dir :: bool
  z_text :: string
  z_bytes :: "nat list"

datatype EntryContent = TextContent string | BinaryContent "nat list"

text \<open>Line 196: only a path ending in \<^verbatim>\<open>.msapp\<close> is read as bytes.\<close>

definition readEntry :: "ZipEntry \<Rightarrow> EntryContent" where
  "readEntry e =
     (if endsWith (z_relativePath e) ''.msapp'' then BinaryContent (z_bytes e)
      else TextContent (z_text e))"

definition extensionOf :: "string \<Rightarrow> string" where
  "extensionOf relativePath =
     orElse (map_option toLowerCase (pop (splitOn CHR ''.'' relativePath))) ''''"

definition fileTypeOf :: "string \<Rightarrow> FileType" where
  "fileTypeOf ext =
     (if ext = ''xml'' then Xml
      else if ext = ''xaml'' then Xaml
      else if ext = ''json'' then Json
      else if ext = ''js'' then Js
      else if ext = ''css'' then Css
      else OtherFile)"

definition toSolutionFile :: "ZipEntry \<Rightarrow> SolutionFile" where
  "toSolutionFile e =
     \<lparr> f_name = orElse (pop (splitOn CHR ''/'' (z_name e))) '''',
       f_path = z_relativePath e,
       f_content = (case readEntry e of
                      TextContent s \<Rightarrow> s
                    | BinaryContent b \<Rightarrow> ''[Binary Content]''),
       f_type = fileTypeOf (extensionOf (z_relativePath e)) \<rparr>"

text \<open>
  Every entry that is not a directory becomes one file. The entries are taken
  in the order in which their reads complete.
\<close>

definition collectFiles :: "ZipEntry list \<Rightarrow> SolutionFile list" where
  "collectFiles entries = map toSolutionFile (filter (\<lambda>e. \<not> z_dir e) entries)"

section \<open>Parsed documents\<close>

text \<open>
  What the selectors of the parser read from the DOM of each document:
  attribute values and text contents, \<open>None\<close> where the attribute or element is
  missing. Reading XML, JSON and the nested canvas package is the platform's
  work; its results are the input of the passes below.
\<close>

record RolePrivilegeNode =
  rp_name :: "utf16 option"
  rp_privilegeid :: "utf16 option"
  rp_level :: "string option"
  rp_depth :: "string option"

record RoleNode =
  rn_id :: "string option"
  rn_name :: "string option"
  rn_ismanaged :: "string option"
  rn_privileges :: "RolePrivilegeNode list"

record RootComponentNode =
  rc_type :: "string option"
  rc_id :: "string option"
  rc_schemaName :: "string option"

record SolutionDoc =
  sd_uniqueName :: "string option"
  sd_version :: "string option"
  sd_localizedName :: "string option"
  sd_publisher :: "string option"
  sd_rootComponents :: "RootComponentNode list"

record AttributeNode =
  at_logicalName :: "string option"
  at_physicalName :: "string option"
  at_description :: "string option"
  at_type :: "string option"

record EntityNode =
  en_name :: "string option"
  en_localizedName :: "string option"
  en_attributes :: "AttributeNode list"

record RelationshipNode =
  rl_name :: "string option"
  rl_relationshipType :: "string option"
  rl_referenced :: "string option"
  rl_referencing :: "string option"

record AppModuleComponentNode =
  amc_type :: "string option"
  amc_schemaName :: "string option"
  amc_id :: "string option"

record AppModuleNode =
  am_uniqueName :: "string option"
  am_localizedName :: "string option"
  am_introducedVersion :: "string option"
  am_formFactor :: "string option"
  am_clientType :: "string option"
  am_navigationType :: "string option"
  am_components :: "AppModuleComponentNode list"
  am_roles :: "string option list"
  am_elements :: "(string option \<times> string option) list"
  am_settings :: "(string option \<times> string option) list"

record WorkflowNode =
  wf_name :: "string option"
  wf_workflowId :: "string option"
  wf_description :: "string option"
  wf_fileName :: "string option"

record CustomizationsDoc =
  cd_roles :: "RoleNode list"
  cd_entities :: "EntityNode list"
  cd_relationships :: "RelationshipNode list"
  cd_appModules :: "AppModuleNode list"
  cd_workflows :: "WorkflowNode list"

text \<open>
  The platform: the DOM parser applied to the two descriptors, and for a
  canvas app file the metadata record assembled from its document and its
  nested package (lines 454-517).
\<close>

record Platform =
  parseSolutionXml :: "string \<Rightarrow> SolutionDoc"
  parseCustomizationsXml :: "string \<Rightarrow> CustomizationsDoc"
  canvasAppMeta :: "SolutionFile \<Rightarrow> CanvasAppMetadata"

section \<open>Security role privileges\<close>

text \<open>
  The regular expression
  \<^verbatim>\<open>/^prv(Create|Read|Write|Delete|AppendTo|Append|Assign|Share)(.*)$/\<close>.
  The alternatives are tried in the order written; \<^verbatim>\<open>.\<close> (no \<^verbatim>\<open>s\<close> flag) matches any
  code unit but a line terminator, which are U+000A, U+000D, U+2028 and U+2029,
  and \<^verbatim>\<open>$\<close> (no \<^verbatim>\<open>m\<close> flag) only the end of the input, so an alternative succeeds
  when the name continues with it after \<^verbatim>\<open>prv\<close> and what follows holds no line
  terminator. The result is the pair of the two capture groups.
\<close>

definition actionVocabulary :: "utf16 list" where
  "actionVocabulary =
     map utf16
       [''Create'', ''Read'', ''Write'', ''Delete'', ''AppendTo'', ''Append'', ''Assign'', ''Share'']"

definition lineTerminator :: "nat \<Rightarrow> bool" where
  "lineTerminator u = (u = 0x0A \<or> u = 0x0D \<or> u = 0x2028 \<or> u = 0x2029)"

definition actionMatch :: "utf16 \<Rightarrow> (utf16 \<times> utf16) option" where
  "actionMatch privName =
     (if startsWith privName (utf16 ''prv'') then
        (case find (\<lambda>a. startsWith (drop 3 privName) a
                        \<and> \<not> list_ex lineTerminator (drop (3 + length a) privName))
                actionVocabulary of
           None \<Rightarrow> None
         | Some a \<Rightarrow> Some (a, drop (3 + length a) privName))
      else None)"

text \<open>
  Lines 269-286 of the role pass: the action and the entity of a privilege
  name. The initial \<^verbatim>\<open>'General Settings'\<close> is overwritten on every branch.
\<close>

definition decomposePrivilege :: "utf16 \<Rightarrow> utf16 option \<times> utf16" where
  "decomposePrivilege privName =
     (case actionMatch privName of
        Some (a, rest) \<Rightarrow> (Some a, if rest = [] then utf16 ''Global System'' else rest)
      | None \<Rightarrow>
          if startsWith privName (utf16 ''prv'') then (None, substring 3 privName)
          else (None, privName))"

definition parsePrivilege :: "RolePrivilegeNode \<Rightarrow> Privilege" where
  "parsePrivilege p =
     (let privName = orElse (rp_name p) '''';
          d = decomposePrivilege privName
      in \<lparr> p_privilegeId = orElse (rp_privilegeid p) privName,
           p_name = privName,
           p_level = orElse (rp_level p) '''',
           p_depth = orUndefined (rp_depth p),
           p_action = fst d,
           p_entity = Some (snd d) \<rparr>)"

definition parseRole :: "RoleNode \<Rightarrow> SecurityRoleMetadata" where
  "parseRole node =
     \<lparr> r_id = orElse (rn_id node) '''',
       r_name = orElse (rn_name node) '''',
       r_isManaged = (rn_ismanaged node = Some ''1''),
       r_privileges = map parsePrivilege (rn_privileges node) \<rparr>"

section \<open>Component passes of parseSolutionZip\<close>

text \<open>
  \<^verbatim>\<open>COMPONENT_TYPE_MAP[typeId] || 'Other'\<close> over the platform's numeric type
  codes. \<^verbatim>\<open>COMPONENT_TYPE_MAP\<close> is an object literal, so the lookup of a key that
  is not its own goes on to \<^verbatim>\<open>Object.prototype\<close>: the keys below name functions
  there (\<^verbatim>\<open>__proto__\<close> names the prototype object itself), all of them truthy,
  and the lookup yields that value instead of \<^verbatim>\<open>'Other'\<close>.
\<close>

definition COMPONENT_TYPE_MAP :: "(string \<times> ComponentType) list" where
  "COMPONENT_TYPE_MAP =
     [(''1'', Table), (''2'', Table), (''3'', Table), (''9'', Table),
      (''20'', SecurityRole), (''26'', WebResource), (''29'', Flow), (''30'', App),
      (''60'', ModelApp), (''62'', Sitemap), (''91'', Plugin), (''92'', Plugin),
      (''300'', App), (''371'', ConnectionRef), (''380'', EnvVar)]"

definition objectPrototypeKeys :: "string list" where
  "objectPrototypeKeys =
     [''constructor'', ''__defineGetter__'', ''__defineSetter__'', ''hasOwnProperty'',
      ''__lookupGetter__'', ''__lookupSetter__'', ''isPrototypeOf'',
      ''propertyIsEnumerable'', ''toString'', ''valueOf'', ''__proto__'',
      ''toLocaleString'']"

definition componentTypeOf :: "string \<Rightarrow> ComponentType" where
  "componentTypeOf typeId =
     (case map_of COMPONENT_TYPE_MAP typeId of
        Some t \<Rightarrow> t
      | None \<Rightarrow> if typeId \<in> set objectPrototypeKeys then Inherited typeId else Other)"

text \<open>Step 2, lines 234-248: one root component of the solution descriptor.\<close>

definition seedRootComponent ::
  "SolutionFile list \<Rightarrow> RootComponentNode \<Rightarrow> LogicalComponent list \<Rightarrow> LogicalComponent list"
where
  "seedRootComponent files node components =
     (let typeId = orElse (rc_type node) '''';
          id = orElse (rc_id node) '''';
          schemaName = orElse (rc_schemaName node) ''''
      in if id \<noteq> '''' \<and> \<not> list_ex (\<lambda>c. c_id c = id) components then
           components @
             [\<lparr> c_id = id,
                c_displayName = orStr schemaName id,
                c_logicalName = orStr schemaName id,
                c_type = componentTypeOf typeId,
                c_description = None,
                c_files = map f_path (filter (\<lambda>f. includes_str (f_path f) id
                              \<or> (schemaName \<noteq> '''' \<and> includes_str (f_path f) schemaName)) files),
                c_metadata = None \<rparr>]
         else components)"

text \<open>Lines 256-312: one \<^verbatim>\<open>Role\<close> element.\<close>

definition mergeRole :: "RoleNode \<Rightarrow> LogicalComponent list \<Rightarrow> LogicalComponent list" where
  "mergeRole node components =
     (let id = orElse (rn_id node) '''';
          name = orElse (rn_name node) '''';
          roleMeta = parseRole node
      in case mutateFound (\<lambda>c. c_id c = id \<and> c_type c = SecurityRole)
                (\<lambda>existing. existing\<lparr> c_displayName := name,
                                        c_metadata := Some (RoleMeta roleMeta) \<rparr>)
                components of
           Some merged \<Rightarrow> merged
         | None \<Rightarrow>
             components @
               [\<lparr> c_id = id, c_displayName = name, c_logicalName = name,
                  c_type = SecurityRole, c_description = None, c_files = [],
                  c_metadata = Some (RoleMeta roleMeta) \<rparr>])"

text \<open>
  Lines 315-343: one \<^verbatim>\<open>Entity\<close> element. The entity map is the \<^verbatim>\<open>Map\<close> of
  in-progress entities, keyed by logical name.
\<close>

definition parseField :: "AttributeNode \<Rightarrow> Field" where
  "parseField attr =
     (let fieldLogicalName = orElse (at_logicalName attr) (orElse (at_physicalName attr) '''')
      in \<lparr> fd_name = fieldLogicalName,
           fd_displayName = orElse (at_description attr) fieldLogicalName,
           fd_type = orElse (at_type attr) ''string'' \<rparr>)"

definition parseEntity :: "EntityNode \<Rightarrow> EntityMetadata" where
  "parseEntity node =
     (let logicalName = orElse (en_name node) ''''
      in \<lparr> e_logicalName = logicalName,
           e_displayName = orElse (en_localizedName node) logicalName,
           e_relationships = [],
           e_fields = map parseField (en_attributes node) \<rparr>)"

definition mergeTable ::
  "SolutionFile list \<Rightarrow> EntityNode \<Rightarrow> LogicalComponent list \<Rightarrow> LogicalComponent list"
where
  "mergeTable files node components =
     (let entity = parseEntity node;
          logicalName = e_logicalName entity;
          displayName = e_displayName entity
      in case mutateFound (\<lambda>c. c_logicalName c = logicalName \<and> c_type c = Table)
                (\<lambda>existing. existing\<lparr> c_displayName := displayName,
                                        c_metadata := Some (TableMeta (e_fields entity)) \<rparr>)
                components of
           Some merged \<Rightarrow> merged
         | None \<Rightarrow>
             components @
               [\<lparr> c_id = logicalName, c_displayName = displayName,
                  c_logicalName = logicalName, c_type = Table, c_description = None,
                  c_files = map f_path (filter (\<lambda>f. startsWith (f_path f)
                                (''Entities/'' @ logicalName @ ''/'')) files),
                  c_metadata = Some (TableMeta (e_fields entity)) \<rparr>])"

definition setEntity ::
  "EntityNode \<Rightarrow> (string \<times> EntityMetadata) list \<Rightarrow> (string \<times> EntityMetadata) list"
where
  "setEntity node entityMap =
     mapSet entityMap (e_logicalName (parseEntity node)) (parseEntity node)"

text \<open>
  Lines 346-359: one \<^verbatim>\<open>EntityRelationship\<close> element. The relationship is
  pushed onto the list of the referenced entity and then onto the list of the
  referencing entity, each looked up in the entity map.
\<close>

definition pushRelationship ::
  "string \<Rightarrow> EntityRelationship \<Rightarrow> (string \<times> EntityMetadata) list
    \<Rightarrow> (string \<times> EntityMetadata) list"
where
  "pushRelationship k rel entityMap =
     (case mapGet entityMap k of
        Some entity \<Rightarrow>
          mapSet entityMap k (entity\<lparr> e_relationships := e_relationships entity @ [rel] \<rparr>)
      | None \<Rightarrow> entityMap)"

definition relationshipOf :: "RelationshipNode \<Rightarrow> EntityRelationship" where
  "relationshipOf relNode =
     \<lparr> er_name = orElse (rl_name relNode) '''',
       er_type = orElse (rl_relationshipType relNode) ''OneToMany'',
       er_from = orElse (rl_referenced relNode) '''',
       er_to = orElse (rl_referencing relNode) '''' \<rparr>"

definition attachRelationship ::
  "RelationshipNode \<Rightarrow> (string \<times> EntityMetadata) list \<Rightarrow> (string \<times> EntityMetadata) list"
where
  "attachRelationship relNode entityMap =
     (let relationship = relationshipOf relNode
      in if er_from relationship \<noteq> '''' \<and> er_to relationship \<noteq> '''' then
           pushRelationship (er_to relationship) relationship
             (pushRelationship (er_from relationship) relationship entityMap)
         else entityMap)"

text \<open>Lines 362-423: one \<^verbatim>\<open>AppModule\<close> element.\<close>

definition parseAppModule :: "AppModuleNode \<Rightarrow> ModelAppMetadata" where
  "parseAppModule node =
     (let uniqueName = orElse (am_uniqueName node) ''''
      in \<lparr> m_uniqueName = uniqueName,
           m_displayName = orElse (am_localizedName node) uniqueName,
           m_version = orElse (am_introducedVersion node) ''1.0.0.0'',
           m_formFactor = orElse (am_formFactor node) ''1'',
           m_clientType = orElse (am_clientType node) ''4'',
           m_navigationType = orElse (am_navigationType node) ''0'',
           m_components =
             map (\<lambda>c. \<lparr> mc_type = orElse (amc_type c) '''',
                         mc_schemaName = orUndefined (amc_schemaName c),
                         mc_id = orUndefined (amc_id c) \<rparr>) (am_components node),
           m_roles = map (\<lambda>r. orElse r '''') (am_roles node),
           m_elements = map (\<lambda>(u, n). (orElse u '''', orElse n '''')) (am_elements node),
           m_settings = map (\<lambda>(n, v). (orElse n '''', orElse v '''')) (am_settings node) \<rparr>)"

definition mergeModelApp ::
  "SolutionFile list \<Rightarrow> AppModuleNode \<Rightarrow> LogicalComponent list \<Rightarrow> LogicalComponent list"
where
  "mergeModelApp files node components =
     (let modelMeta = parseAppModule node;
          uniqueName = m_uniqueName modelMeta;
          localizedName = m_displayName modelMeta
      in case mutateFound (\<lambda>c. c_logicalName c = uniqueName \<and> c_type c = ModelApp)
                (\<lambda>existing. existing\<lparr> c_displayName := localizedName,
                                        c_metadata := Some (ModelMeta modelMeta) \<rparr>)
                components of
           Some merged \<Rightarrow> merged
         | None \<Rightarrow>
             components @
               [\<lparr> c_id = uniqueName, c_displayName = localizedName,
                  c_logicalName = uniqueName, c_type = ModelApp, c_description = None,
                  c_files = map f_path (filter (\<lambda>f. includes_str (f_path f) uniqueName) files),
                  c_metadata = Some (ModelMeta modelMeta) \<rparr>])"

text \<open>Lines 426-446: one \<^verbatim>\<open>Workflow\<close> element.\<close>

definition normalizedFileName :: "WorkflowNode \<Rightarrow> string" where
  "normalizedFileName node =
     (let fileName = orElse (wf_fileName node) ''''
      in if startsWith fileName ''/'' then substring 1 fileName else fileName)"

definition mergeFlow ::
  "SolutionFile list \<Rightarrow> WorkflowNode \<Rightarrow> LogicalComponent list \<Rightarrow> LogicalComponent list"
where
  "mergeFlow files node components =
     (let name = orElse (wf_name node) ''Untitled Flow'';
          logicalName = orElse (wf_workflowId node) '''';
          normalized = normalizedFileName node
      in case mutateFound (\<lambda>c. c_id c = logicalName)
                (\<lambda>existing. existing\<lparr> c_displayName := name,
                     c_files := arrayFromSet (c_files existing @
                        map f_path (filter (\<lambda>f. includes_str (f_path f) normalized) files)) \<rparr>)
                components of
           Some merged \<Rightarrow> merged
         | None \<Rightarrow>
             components @
               [\<lparr> c_id = logicalName, c_displayName = name, c_logicalName = logicalName,
                  c_type = Flow,
                  c_description = Some (orElse (wf_description node) ''''),
                  c_files = map f_path (filter (\<lambda>f. includes_str (f_path f) normalized
                                \<or> includes_str (f_path f) logicalName) files),
                  c_metadata = None \<rparr>])"

text \<open>
  Step 4, lines 450 and 521-536: the canvas app files and the merge of one
  canvas app's metadata.
\<close>

definition canvasAppFiles :: "SolutionFile list \<Rightarrow> SolutionFile list" where
  "canvasAppFiles files =
     filter (\<lambda>f. startsWith (f_path f) ''CanvasApps/'' \<and> endsWith (f_path f) ''.xml''
                \<and> \<not> includes_str (f_path f) ''_'') files"

definition mergeCanvasApp ::
  "SolutionFile list \<Rightarrow> CanvasAppMetadata \<Rightarrow> LogicalComponent list \<Rightarrow> LogicalComponent list"
where
  "mergeCanvasApp files appMeta components =
     (let name = ca_name appMeta;
          appId = ca_appId appMeta;
          displayName = ca_displayName appMeta
      in case mutateFound (\<lambda>c. c_logicalName c = name \<or> c_id c = appId)
                (\<lambda>existing. existing\<lparr> c_type := App, c_displayName := displayName,
                                        c_metadata := Some (CanvasMeta appMeta) \<rparr>)
                components of
           Some merged \<Rightarrow> merged
         | None \<Rightarrow>
             components @
               [\<lparr> c_id = orStr appId name, c_displayName = displayName,
                  c_logicalName = name, c_type = App,
                  c_description = Some (ca_description appMeta),
                  c_files = map f_path (filter (\<lambda>f. includes_str (f_path f) name) files),
                  c_metadata = Some (CanvasMeta appMeta) \<rparr>])"

text \<open>
  Line 539: the final pass keeps a component when the first index holding its
  id is its own index.
\<close>

definition dedupeById :: "LogicalComponent list \<Rightarrow> LogicalComponent list" where
  "dedupeById components =
     filterIndexed (\<lambda>v i. findIndex (\<lambda>t. c_id t = c_id v) components = Some i) components"

section \<open>parseSolutionZip\<close>

definition fileContent :: "SolutionFile list \<Rightarrow> string \<Rightarrow> string option" where
  "fileContent files p = map_option f_content (find (\<lambda>f. f_path f = p) files)"

definition rootComponentsPass ::
  "SolutionFile list \<Rightarrow> SolutionDoc \<Rightarrow> LogicalComponent list \<Rightarrow> LogicalComponent list"
where
  "rootComponentsPass files doc components =
     foldl (\<lambda>cs node. seedRootComponent files node cs) components (sd_rootComponents doc)"

definition customizationsPass ::
  "SolutionFile list \<Rightarrow> CustomizationsDoc \<Rightarrow> LogicalComponent list \<Rightarrow> LogicalComponent list"
where
  "customizationsPass files doc components =
     (let c1 = foldl (\<lambda>cs node. mergeRole node cs) components (cd_roles doc);
          c2 = foldl (\<lambda>cs node. mergeTable files node cs) c1 (cd_entities doc);
          c3 = foldl (\<lambda>cs node. mergeModelApp files node cs) c2 (cd_appModules doc)
      in foldl (\<lambda>cs node. mergeFlow files node cs) c3 (cd_workflows doc))"

definition entitiesPass :: "CustomizationsDoc \<Rightarrow> (string \<times> EntityMetadata) list" where
  "entitiesPass doc =
     foldl (\<lambda>m relNode. attachRelationship relNode m)
       (foldl (\<lambda>m node. setEntity node m) [] (cd_entities doc))
       (cd_relationships doc)"

definition canvasPass ::
  "Platform \<Rightarrow> SolutionFile list \<Rightarrow> LogicalComponent list \<Rightarrow> LogicalComponent list"
where
  "canvasPass pf files components =
     foldl (\<lambda>cs f. mergeCanvasApp files (canvasAppMeta pf f) cs) components
       (canvasAppFiles files)"

definition parseSolutionZip :: "Platform \<Rightarrow> ZipEntry list \<Rightarrow> Solution" where
  "parseSolutionZip pf entries =
     (let files = collectFiles entries;
          customizationsXml = orUndefined (fileContent files ''customizations.xml'');
          solutionXml = orUndefined (fileContent files ''solution.xml'');
          solutionDoc = map_option (parseSolutionXml pf) solutionXml;
          customDoc = map_option (parseCustomizationsXml pf) customizationsXml;
          c0 = (case solutionDoc of
                  Some doc \<Rightarrow> rootComponentsPass files doc []
                | None \<Rightarrow> []);
          c1 = (case customDoc of
                  Some doc \<Rightarrow> customizationsPass files doc c0
                | None \<Rightarrow> c0);
          entityMap = (case customDoc of Some doc \<Rightarrow> entitiesPass doc | None \<Rightarrow> []);
          c2 = canvasPass pf files c1
      in \<lparr> s_files = files,
           s_metadata =
             \<lparr> sm_uniqueName =
                 orElse (Option.bind solutionDoc sd_uniqueName) ''Unknown'',
               sm_version = orElse (Option.bind solutionDoc sd_version) ''0.0.0.0'',
               sm_localizedName =
                 orElse (Option.bind solutionDoc sd_localizedName) ''Unknown Solution'',
               sm_publisher = orElse (Option.bind solutionDoc sd_publisher) ''Unknown'',
               sm_components = dedupeById c2,
               sm_entities = mapValues entityMap,
               sm_canvasApps = Some (map (canvasAppMeta pf) (canvasAppFiles files)) \<rparr> \<rparr>)"

section \<open>The oracle call with retries (GeminiService.executeWithRetry)\<close>

text \<open>
  What reaches the caller of \<^verbatim>\<open>executeWithRetry\<close> when it throws: the
  \<^verbatim>\<open>QuotaError\<close> of this module with its message, or the value the oracle call
  itself threw.
\<close>

datatype 'e failure = QuotaError string | OracleError 'e

text \<open>
  Lines 46-47. \<open>message\<close> reads the \<^verbatim>\<open>message\<close> property of a thrown value,
  \<open>None\<close> when the value has none.
\<close>

definition quotaExhausted :: "('e \<Rightarrow> string option) \<Rightarrow> 'e \<Rightarrow> bool" where
  "quotaExhausted message error =
     (let errorMsg = orElse (message error) ''''
      in includes_str errorMsg ''429'' \<or> includes_str errorMsg ''RESOURCE_EXHAUSTED'')"

text \<open>
  The oracle call \<^verbatim>\<open>fn\<close> is an effect: it takes the state of the world and
  returns what it resolves to (\<open>Inr\<close>) or throws (\<open>Inl\<close>) with the next state.
  The result holds the outcome, the delays waited for in order, and the final
  state. \<^verbatim>\<open>retries\<close> defaults to 3 and \<^verbatim>\<open>delay\<close> to 1000.
\<close>

fun executeWithRetry ::
  "('e \<Rightarrow> string option) \<Rightarrow> ('s \<Rightarrow> ('e + 'a) \<times> 's) \<Rightarrow> nat \<Rightarrow> nat \<Rightarrow> 's
    \<Rightarrow> ('e failure + 'a) \<times> nat list \<times> 's"
where
  "executeWithRetry message fn retries delay s =
     (case fn s of
        (Inr v, s') \<Rightarrow> (Inr v, [], s')
      | (Inl error, s') \<Rightarrow>
          if quotaExhausted message error then
            (if retries > 0 then
               (case executeWithRetry message fn (retries - 1) (delay * 2) s' of
                  (r, waits, s'') \<Rightarrow> (r, delay # waits, s''))
             else (Inl (QuotaError ''API rate limit exceeded.''), [], s'))
          else (Inl (OracleError error), [], s'))"

text \<open>
  The attempts of one call of \<^verbatim>\<open>executeWithRetry\<close>: the state in which the
  \<open>k\<close>-th invocation of \<^verbatim>\<open>fn\<close> starts (counting from 0), and its outcome.
\<close>

fun attemptState :: "('s \<Rightarrow> ('e + 'a) \<times> 's) \<Rightarrow> 's \<Rightarrow> nat \<Rightarrow> 's" where
  "attemptState fn s 0 = s"
| "attemptState fn s (Suc k) = attemptState fn (snd (fn s)) k"

definition attempt :: "('s \<Rightarrow> ('e + 'a) \<times> 's) \<Rightarrow> 's \<Rightarrow> nat \<Rightarrow> 'e + 'a" where
  "attempt fn s k = fst (fn (attemptState fn s k))"

definition quotaFailure ::
  "('e \<Rightarrow> string option) \<Rightarrow> ('s \<Rightarrow> ('e + 'a) \<times> 's) \<Rightarrow> 's \<Rightarrow> nat \<Rightarrow> bool"
where
  "quotaFailure message fn s k =
     (case attempt fn s k of Inl error \<Rightarrow> quotaExhausted message error | Inr v \<Rightarrow> False)"

section \<open>The relationship edges (SchemaVisualizer.allRelationships)\<close>






section \<open>The diff engine (solutionDiff in App.tsx)\<close>

datatype AppMode = Home | Explore | Compare

datatype DiffStatus = Added | Removed | Modified | Unchanged

record ModifiedPrivilege =
  mp_name :: utf16
  mp_old :: "Privilege option"
  mp_new :: Privilege

text \<open>
  The two shapes of \<^verbatim>\<open>LogicalDiff\<close> the engine builds: for tables the added
  and removed fields, for security roles the added, removed and modified
  privileges.
\<close>

datatype LogicalDiff =
  TableDiff "Field list" "Field list"
  | SecurityRoleDiff "Privilege list" "Privilege list" "ModifiedPrivilege list"

record FileDiff =
  d_path :: string
  d_name :: string
  d_status :: DiffStatus
  d_oldContent :: "string option"
  d_newContent :: "string option"
  d_type :: FileType
  d_logicalDiff :: "LogicalDiff option"
  d_oldMetadata :: "Metadata option"
  d_newMetadata :: "Metadata option"

record DiffStats =
  st_added :: nat
  st_removed :: nat
  st_modified :: nat

record SolutionDiff =
  df_oldMetadata :: "SolutionMetadata option"
  df_newMetadata :: "SolutionMetadata option"
  df_fileDiffs :: "FileDiff list"
  df_stats :: DiffStats

text \<open>Reading a property of \<^verbatim>\<open>undefined\<close> throws a \<^verbatim>\<open>TypeError\<close>.\<close>

datatype JsError = TypeError

text \<open>
  \<^verbatim>\<open>xs.sort(cmp)\<close>: the stable sort by a comparator, \<open>x\<close> before \<open>y\<close> when
  \<open>cmp x y \<le> 0\<close>. For a consistent comparator every stable sort gives this
  list; it is written as an insertion sort.
\<close>

fun insertBy :: "('a \<Rightarrow> 'a \<Rightarrow> int) \<Rightarrow> 'a \<Rightarrow> 'a list \<Rightarrow> 'a list" where
  "insertBy cmp x [] = [x]"
| "insertBy cmp x (y # ys) = (if cmp x y \<le> 0 then x # y # ys else y # insertBy cmp x ys)"

definition sortBy :: "('a \<Rightarrow> 'a \<Rightarrow> int) \<Rightarrow> 'a list \<Rightarrow> 'a list" where
  "sortBy cmp xs = foldr (insertBy cmp) xs []"

text \<open>\<^verbatim>\<open>xs.forEach(step)\<close> for a step that may throw: the first error ends the loop.\<close>

fun forEachPath :: "('p \<Rightarrow> 'acc \<Rightarrow> 'e + 'acc) \<Rightarrow> 'p list \<Rightarrow> 'acc \<Rightarrow> 'e + 'acc" where
  "forEachPath step [] acc = Inr acc"
| "forEachPath step (p # ps) acc =
     (case step p acc of Inl e \<Rightarrow> Inl e | Inr acc' \<Rightarrow> forEachPath step ps acc')"

text \<open>Lines 60-64: the maps of files by path and of components by id.\<close>

definition fileIndex :: "SolutionFile list \<Rightarrow> (string \<times> SolutionFile) list" where
  "fileIndex files = newMap (map (\<lambda>f. (f_path f, f)) files)"

definition componentIndex :: "LogicalComponent list \<Rightarrow> (string \<times> LogicalComponent) list" where
  "componentIndex components = newMap (map (\<lambda>c. (c_id c, c)) components)"

text \<open>Lines 80-81: the first component whose files include the path.\<close>

definition owningComponent ::
  "(string \<times> LogicalComponent) list \<Rightarrow> string \<Rightarrow> LogicalComponent option"
where
  "owningComponent comps path = find (\<lambda>c. path \<in> set (c_files c)) (mapValues comps)"

text \<open>
  Lines 86-87, \<^verbatim>\<open>comp.metadata?.fields || []\<close>: the fields of a table payload,
  and the empty list when the metadata is missing or has no fields.
\<close>

definition fieldsOf :: "LogicalComponent \<Rightarrow> Field list" where
  "fieldsOf c = (case c_metadata c of Some (TableMeta fs) \<Rightarrow> fs | _ \<Rightarrow> [])"

text \<open>
  Lines 96-97, \<^verbatim>\<open>(comp.metadata as SecurityRoleMetadata).privileges || []\<close>:
  there is no \<^verbatim>\<open>?.\<close> here, so missing metadata throws; a payload of another
  kind has no privileges.
\<close>

definition privilegesOf :: "LogicalComponent \<Rightarrow> JsError + Privilege list" where
  "privilegesOf c =
     (case c_metadata c of
        None \<Rightarrow> Inl TypeError
      | Some (RoleMeta r) \<Rightarrow> Inr (r_privileges r)
      | Some other \<Rightarrow> Inr [])"

text \<open>Lines 88-92.\<close>

definition tableDiff :: "Field list \<Rightarrow> Field list \<Rightarrow> LogicalDiff" where
  "tableDiff oldFields newFields =
     TableDiff
       (filter (\<lambda>nf. \<not> list_ex (\<lambda>old. fd_name old = fd_name nf) oldFields) newFields)
       (filter (\<lambda>old. \<not> list_ex (\<lambda>nf. fd_name nf = fd_name old) newFields) oldFields)"

text \<open>Lines 98-106.\<close>

definition privilegeChanged :: "Privilege list \<Rightarrow> Privilege \<Rightarrow> bool" where
  "privilegeChanged oldPrivs np =
     (case find (\<lambda>old. p_name old = p_name np) oldPrivs of
        None \<Rightarrow> False
      | Some old \<Rightarrow> p_level old \<noteq> p_level np \<or> p_depth old \<noteq> p_depth np)"

definition roleDiff :: "Privilege list \<Rightarrow> Privilege list \<Rightarrow> LogicalDiff" where
  "roleDiff oldPrivs newPrivs =
     SecurityRoleDiff
       (filter (\<lambda>np. \<not> list_ex (\<lambda>old. p_name old = p_name np) oldPrivs) newPrivs)
       (filter (\<lambda>old. \<not> list_ex (\<lambda>np. p_name np = p_name old) newPrivs) oldPrivs)
       (map (\<lambda>np. \<lparr> mp_name = p_name np,
                    mp_old = find (\<lambda>old. p_name old = p_name np) oldPrivs,
                    mp_new = np \<rparr>)
          (filter (privilegeChanged oldPrivs) newPrivs))"

text \<open>
  Lines 83-107: the table branch, then the security role branch, which assigns
  over it (the two conditions exclude each other). Both need an owning
  component on each side.
\<close>

definition logicalDiffOf ::
  "LogicalComponent option \<Rightarrow> LogicalComponent option \<Rightarrow> JsError + LogicalDiff option"
where
  "logicalDiffOf baseComp targetComp =
     (case (baseComp, targetComp) of
        (Some b, Some t) \<Rightarrow>
          (let tableBranch =
                 (if c_type b = Table \<and> c_type t = Table
                  then Some (tableDiff (fieldsOf b) (fieldsOf t)) else None)
           in if c_type b = SecurityRole \<and> c_type t = SecurityRole then
                (case privilegesOf b of
                   Inl e \<Rightarrow> Inl e
                 | Inr oldPrivs \<Rightarrow>
                     (case privilegesOf t of
                        Inl e \<Rightarrow> Inl e
                      | Inr newPrivs \<Rightarrow> Inr (Some (roleDiff oldPrivs newPrivs))))
              else Inr tableBranch)
      | other \<Rightarrow> Inr None)"

text \<open>Lines 72-76: the status of a path from the two lookups.\<close>

definition statusOf :: "SolutionFile option \<Rightarrow> SolutionFile option \<Rightarrow> DiffStatus" where
  "statusOf base target =
     (if base = None \<and> target \<noteq> None then Added
      else if base \<noteq> None \<and> target = None then Removed
      else if base \<noteq> None \<and> target \<noteq> None
              \<and> map_option f_content base \<noteq> map_option f_content target then Modified
      else Unchanged)"

record DiffAcc =
  a_fileDiffs :: "FileDiff list"
  a_added :: nat
  a_removed :: nat
  a_modified :: nat

definition countStatus :: "DiffStatus \<Rightarrow> DiffAcc \<Rightarrow> DiffAcc" where
  "countStatus status acc =
     (case status of
        Added \<Rightarrow> acc\<lparr> a_added := a_added acc + 1 \<rparr>
      | Removed \<Rightarrow> acc\<lparr> a_removed := a_removed acc + 1 \<rparr>
      | Modified \<Rightarrow> acc\<lparr> a_modified := a_modified acc + 1 \<rparr>
      | Unchanged \<Rightarrow> acc)"

text \<open>
  Lines 69-121, the body of the loop over all paths. \<^verbatim>\<open>(target || base)\<close> is
  defined whenever the status is not \<^verbatim>\<open>unchanged\<close>.
\<close>

definition diffPath ::
  "(string \<times> SolutionFile) list \<Rightarrow> (string \<times> SolutionFile) list
    \<Rightarrow> (string \<times> LogicalComponent) list \<Rightarrow> (string \<times> LogicalComponent) list
    \<Rightarrow> string \<Rightarrow> DiffAcc \<Rightarrow> JsError + DiffAcc"
where
  "diffPath baseFiles targetFiles baseComps targetComps path acc =
     (let base = mapGet baseFiles path;
          target = mapGet targetFiles path;
          status = statusOf base target;
          counted = countStatus status acc
      in if status \<noteq> Unchanged then
           (case (case target of Some t \<Rightarrow> Some t | None \<Rightarrow> base) of
              None \<Rightarrow> Inl TypeError
            | Some file \<Rightarrow>
                (let baseComp = owningComponent baseComps path;
                     targetComp = owningComponent targetComps path
                 in case logicalDiffOf baseComp targetComp of
                      Inl e \<Rightarrow> Inl e
                    | Inr logicalDiff \<Rightarrow>
                        Inr (counted\<lparr> a_fileDiffs := a_fileDiffs counted @
                          [\<lparr> d_path = path,
                             d_name = f_name file,
                             d_status = status,
                             d_oldContent = map_option f_content base,
                             d_newContent = map_option f_content target,
                             d_type = f_type file,
                             d_logicalDiff = logicalDiff,
                             d_oldMetadata = Option.bind baseComp c_metadata,
                             d_newMetadata = Option.bind targetComp c_metadata \<rparr>] \<rparr>)))
         else Inr counted)"

text \<open>
  Lines 56-129. \<^verbatim>\<open>localeCompare\<close> is the platform's string collation; the
  result is \<open>None\<close> (\<^verbatim>\<open>null\<close>) outside compare mode or when a solution is missing.
\<close>

definition solutionDiff ::
  "(string \<Rightarrow> string \<Rightarrow> int) \<Rightarrow> AppMode \<Rightarrow> Solution option \<Rightarrow> Solution option
    \<Rightarrow> JsError + SolutionDiff option"
where
  "solutionDiff localeCompare appMode baseSolution targetSolution =
     (case (baseSolution, targetSolution) of
        (Some b, Some t) \<Rightarrow>
          if appMode \<noteq> Compare then Inr None
          else
            (let baseFiles = fileIndex (s_files b);
                 targetFiles = fileIndex (s_files t);
                 baseComps = componentIndex (sm_components (s_metadata b));
                 targetComps = componentIndex (sm_components (s_metadata t));
                 allPaths = arrayFromSet (mapKeys baseFiles @ mapKeys targetFiles)
             in case forEachPath (diffPath baseFiles targetFiles baseComps targetComps) allPaths
                       \<lparr> a_fileDiffs = [], a_added = 0, a_removed = 0, a_modified = 0 \<rparr> of
                  Inl e \<Rightarrow> Inl e
                | Inr acc \<Rightarrow>
                    Inr (Some
                      \<lparr> df_oldMetadata = Some (s_metadata b),
                        df_newMetadata = Some (s_metadata t),
                        df_fileDiffs =
                          sortBy (\<lambda>x y. localeCompare (d_path x) (d_path y)) (a_fileDiffs acc),
                        df_stats = \<lparr> st_added = a_added acc, st_removed = a_removed acc,
                                     st_modified = a_modified acc \<rparr> \<rparr>))
      | other \<Rightarrow> Inr None)"

section \<open>Example inputs\<close>

definition exampleRoleNode :: RoleNode where
  "exampleRoleNode =
     \<lparr> rn_id = Some ''r1'', rn_name = Some ''Sales'', rn_ismanaged = Some ''0'',
       rn_privileges =
         [\<lparr> rp_name = Some (utf16 ''prvReadAccount''), rp_privilegeid = None,
            rp_level = Some ''Global'', rp_depth = None \<rparr>,
          \<lparr> rp_name = Some (utf16 ''customPrivilege''), rp_privilegeid = Some (utf16 ''42''),
            rp_level = None, rp_depth = Some ''Deep'' \<rparr>] \<rparr>"

definition exampleComponents :: "LogicalComponent list" where
  "exampleComponents =
     [\<lparr> c_id = ''a'', c_displayName = ''First'', c_logicalName = ''a'', c_type = Table,
        c_description = None, c_files = [], c_metadata = None \<rparr>,
      \<lparr> c_id = ''b'', c_displayName = ''Second'', c_logicalName = ''b'', c_type = Flow,
        c_description = None, c_files = [], c_metadata = None \<rparr>,
      \<lparr> c_id = ''a'', c_displayName = ''Third'', c_logicalName = ''c'', c_type = App,
        c_description = None, c_files = [], c_metadata = None \<rparr>]"

definition pngEntry :: ZipEntry where
  "pngEntry =
     \<lparr> z_relativePath = ''WebResources/logo.png'', z_name = ''WebResources/logo.png'',
       z_dir = False, z_text = ''PNG image data'', z_bytes = [137, 80, 78, 71] \<rparr>"

definition msappEntry :: ZipEntry where
  "msappEntry =
     \<lparr> z_relativePath = ''CanvasApps/app.msapp'', z_name = ''CanvasApps/app.msapp'',
       z_dir = False, z_text = ''PK archive data'', z_bytes = [80, 75, 3, 4] \<rparr>"

definition xmlEntry :: ZipEntry where
  "xmlEntry =
     \<lparr> z_relativePath = ''Other/Customizations.XML'', z_name = ''Other/Customizations.XML'',
       z_dir = False, z_text = ''<ImportExportXml/>'', z_bytes = [60] \<rparr>"

definition exampleFiles :: "SolutionFile list" where
  "exampleFiles =
     [\<lparr> f_name = ''solution.xml'', f_path = ''solution.xml'', f_content = ''<s/>'',
        f_type = Xml \<rparr>,
      \<lparr> f_name = ''Notify-7A.json'', f_path = ''Workflows/Notify-7A.json'',
        f_content = ''{}'', f_type = Json \<rparr>,
      \<lparr> f_name = ''r1.xml'', f_path = ''Roles/r1.xml'', f_content = ''<r/>'',
        f_type = Xml \<rparr>]"

definition exampleFlowNode :: WorkflowNode where
  "exampleFlowNode =
     \<lparr> wf_name = Some ''Notify'', wf_workflowId = Some ''{7a}'',
       wf_description = None, wf_fileName = Some ''/Workflows/Notify-7A.json'' \<rparr>"

definition seededRole :: "LogicalComponent list" where
  "seededRole =
     [\<lparr> c_id = ''r1'', c_displayName = ''r1'', c_logicalName = ''r1'',
        c_type = SecurityRole, c_description = None, c_files = [''Roles/r1.xml''],
        c_metadata = None \<rparr>]"

definition unnamedRoleNode :: RoleNode where
  "unnamedRoleNode =
     \<lparr> rn_id = Some ''r1'', rn_name = None, rn_ismanaged = None, rn_privileges = [] \<rparr>"

definition alwaysBusy :: "nat \<Rightarrow> (string + string) \<times> nat" where
  "alwaysBusy n = (Inl ''got status: 429 RESOURCE_EXHAUSTED'', Suc n)"

definition busyThenBroken :: "nat \<Rightarrow> (string + string) \<times> nat" where
  "busyThenBroken n =
     (if n = 0 then Inl ''429 Too Many Requests'' else Inl ''400 Bad Request'', Suc n)"



text \<open>
  A small bundle in two versions. The solution descriptor lists one root
  component, a security role; the customization descriptor holds two entities
  and one relationship between them, and no role. The target version changes
  the role's file and adds a file.
\<close>

definition textEntry :: "string \<Rightarrow> string \<Rightarrow> ZipEntry" where
  "textEntry p s = \<lparr> z_relativePath = p, z_name = p, z_dir = False, z_text = s, z_bytes = [] \<rparr>"

definition baseEntries :: "ZipEntry list" where
  "baseEntries =
     [textEntry ''solution.xml'' ''<solution/>'',
      textEntry ''customizations.xml'' ''<customizations/>'',
      textEntry ''Roles/role1.xml'' ''<Role>Local</Role>'',
      textEntry ''Entities/account/Entity.xml'' ''<Entity/>'']"

definition targetEntries :: "ZipEntry list" where
  "targetEntries =
     [textEntry ''solution.xml'' ''<solution/>'',
      textEntry ''customizations.xml'' ''<customizations/>'',
      textEntry ''Roles/role1.xml'' ''<Role>Global</Role>'',
      textEntry ''Entities/account/Entity.xml'' ''<Entity/>'',
      textEntry ''Entities/contact/Entity.xml'' ''<Entity/>'']"

definition exampleRelationshipNode :: RelationshipNode where
  "exampleRelationshipNode =
     \<lparr> rl_name = Some ''account_contacts'', rl_relationshipType = Some ''OneToMany'',
       rl_referenced = Some ''account'', rl_referencing = Some ''contact'' \<rparr>"

definition exampleSolutionDoc :: SolutionDoc where
  "exampleSolutionDoc =
     \<lparr> sd_uniqueName = Some ''Sales'', sd_version = Some ''1.0.0.1'',
       sd_localizedName = Some ''Sales'', sd_publisher = Some ''contoso'',
       sd_rootComponents =
         [\<lparr> rc_type = Some ''20'', rc_id = Some ''role1'', rc_schemaName = None \<rparr>] \<rparr>"

definition exampleCustomizationsDoc :: CustomizationsDoc where
  "exampleCustomizationsDoc =
     \<lparr> cd_roles = [],
       cd_entities =
         [\<lparr> en_name = Some ''account'', en_localizedName = Some ''Account'',
            en_attributes = [] \<rparr>,
          \<lparr> en_name = Some ''contact'', en_localizedName = None, en_attributes = [] \<rparr>],
       cd_relationships = [exampleRelationshipNode],
       cd_appModules = [],
       cd_workflows = [] \<rparr>"

definition emptyCanvasAppMeta :: CanvasAppMetadata where
  "emptyCanvasAppMeta =
     \<lparr> ca_name = '''', ca_displayName = '''', ca_description = '''', ca_appId = '''',
       ca_path = '''', ca_isPage = False, ca_appVersion = None,
       ca_createdClientVersion = None, ca_minClientVersion = None, ca_tags = None,
       ca_databaseReferences = None, ca_connectionReferences = None,
       ca_cdsDependencies = None, ca_canvasAppType = Some ''0'', ca_dataSources = None,
       ca_controlCount = None, ca_layout = None \<rparr>"

text \<open>
  Two versions of the role's element, for descriptors that do hold the role:
  Read at level Local, and then Read at level Global with Write at level Basic.
\<close>

definition readLocalRole :: RoleNode where
  "readLocalRole =
     \<lparr> rn_id = Some ''role1'', rn_name = Some ''Salesperson'', rn_ismanaged = Some ''0'',
       rn_privileges =
         [\<lparr> rp_name = Some (utf16 ''prvReadAccount''), rp_privilegeid = Some (utf16 ''p1''),
            rp_level = Some ''Local'', rp_depth = None \<rparr>] \<rparr>"

definition readGlobalWriteBasicRole :: RoleNode where
  "readGlobalWriteBasicRole =
     \<lparr> rn_id = Some ''role1'', rn_name = Some ''Salesperson'', rn_ismanaged = Some ''0'',
       rn_privileges =
         [\<lparr> rp_name = Some (utf16 ''prvReadAccount''), rp_privilegeid = Some (utf16 ''p1''),
            rp_level = Some ''Global'', rp_depth = None \<rparr>,
          \<lparr> rp_name = Some (utf16 ''prvWriteAccount''), rp_privilegeid = Some (utf16 ''p2''),
            rp_level = Some ''Basic'', rp_depth = None \<rparr>] \<rparr>"

definition examplePlatform :: Platform where
  "examplePlatform =
     \<lparr> parseSolutionXml = (\<lambda>xml. exampleSolutionDoc),
       parseCustomizationsXml =
         (\<lambda>xml. if xml = ''<roles>v1</roles>''
                 then exampleCustomizationsDoc\<lparr> cd_roles := [readLocalRole] \<rparr>
               else if xml = ''<roles>v2</roles>''
                 then exampleCustomizationsDoc\<lparr> cd_roles := [readGlobalWriteBasicRole] \<rparr>
               else exampleCustomizationsDoc),
       canvasAppMeta = (\<lambda>f. emptyCanvasAppMeta\<lparr> ca_path := f_path f \<rparr>) \<rparr>"

definition roleBaseEntries :: "ZipEntry list" where
  "roleBaseEntries =
     [textEntry ''solution.xml'' ''<solution/>'',
      textEntry ''customizations.xml'' ''<roles>v1</roles>'',
      textEntry ''Roles/role1.xml'' ''<Role>Local</Role>'',
      textEntry ''Entities/account/Entity.xml'' ''<Entity/>'']"

definition roleTargetEntries :: "ZipEntry list" where
  "roleTargetEntries =
     [textEntry ''solution.xml'' ''<solution/>'',
      textEntry ''customizations.xml'' ''<roles>v2</roles>'',
      textEntry ''Roles/role1.xml'' ''<Role>Global</Role>'',
      textEntry ''Entities/account/Entity.xml'' ''<Entity/>'',
      textEntry ''Entities/contact/Entity.xml'' ''<Entity/>'']"

text \<open>
  A comparator is consistent when \<open>cmp x y \<le> 0\<close> is a total preorder, as the
  collation behind \<^verbatim>\<open>localeCompare\<close> is.
\<close>

definition consistentComparator :: "('a \<Rightarrow> 'a \<Rightarrow> int) \<Rightarrow> bool" where
  "consistentComparator cmp =
     ((\<forall>x y. cmp x y \<le> 0 \<or> cmp y x \<le> 0)
      \<and> (\<forall>x y z. cmp x y \<le> 0 \<and> cmp y z \<le> 0 \<longrightarrow> cmp x z \<le> 0))"

text \<open>The order of strings by code units, as a comparator.\<close>

definition codeUnitCompare :: "string \<Rightarrow> string \<Rightarrow> int" where
  "codeUnitCompare a b = (if a < b then - 1 else if a = b then 0 else 1)"

text \<open>
  The ingested models of the examples: the bundle whose descriptor holds the
  role, and the bundle whose descriptor does not, each in two versions.
\<close>

definition roleBase :: Solution where
  "roleBase = parseSolutionZip examplePlatform roleBaseEntries"

definition roleTarget :: Solution where
  "roleTarget = parseSolutionZip examplePlatform roleTargetEntries"

definition bareBase :: Solution where
  "bareBase = parseSolutionZip examplePlatform baseEntries"

definition bareTarget :: Solution where
  "bareTarget = parseSolutionZip examplePlatform targetEntries"

text \<open>
  A role whose privilege names hold the line separator U+2028 and a carriage
  return after a vocabulary action.
\<close>

definition separatorRoleNode :: RoleNode where
  "separatorRoleNode =
     \<lparr> rn_id = Some ''r2'', rn_name = Some ''Support'', rn_ismanaged = Some ''0'',
       rn_privileges =
         [\<lparr> rp_name = Some (utf16 ''prvReadAccount''), rp_privilegeid = None,
            rp_level = Some ''Global'', rp_depth = None \<rparr>,
          \<lparr> rp_name = Some (utf16 ''customPrivilege''), rp_privilegeid = Some (utf16 ''42''),
            rp_level = None, rp_depth = Some ''Deep'' \<rparr>,
          \<lparr> rp_name = Some (utf16 ''prvRead'' @ [0x2028] @ utf16 ''Account''),
            rp_privilegeid = None, rp_level = Some ''Local'', rp_depth = None \<rparr>,
          \<lparr> rp_name = Some (utf16 ''prvWrite'' @ [0x0D]),
            rp_privilegeid = None, rp_level = Some ''Local'', rp_depth = None \<rparr>] \<rparr>"





text \<open>
  The comparator of the sorted examples: the order of strings by code units
  after case folding. On the paths of the examples, whose first letters differ,
  it orders as the collation of \<^verbatim>\<open>localeCompare\<close> does: \<^verbatim>\<open>customizations.xml\<close>,
  then \<^verbatim>\<open>Entities/...\<close>, then \<^verbatim>\<open>Roles/...\<close>.
\<close>

definition caseFoldCompare :: "string \<Rightarrow> string \<Rightarrow> int" where
  "caseFoldCompare a b = codeUnitCompare (toLowerCase a) (toLowerCase b)"

section \<open>Verification: privilege names\<close>

lemma utf16_Nil [simp]: "utf16 [] = []"
  by (simp add: utf16_def)

lemma length_utf16 [simp]: "length (utf16 s) = length s"
  by (simp add: utf16_def)

lemma utf16_eq_Nil_iff [simp]: "utf16 s = [] \<longleftrightarrow> s = []"
  by (simp add: utf16_def)

lemma utf16_eq_iff [simp]: "utf16 s = utf16 t \<longleftrightarrow> s = t"
  unfolding utf16_def by (rule inj_map_eq_map) (rule inj_of_char)

lemma startsWith_iff: "startsWith s p \<longleftrightarrow> (\<exists>r. s = p @ r)"
  unfolding startsWith_def
  by (metis append_eq_conv_conj append_take_drop_id)

lemma startsWith_append [simp]: "startsWith (p @ r) p"
  by (simp add: startsWith_def)

lemma startsWith_two:
  "startsWith n p \<and> startsWith (drop (length p) n) a \<longleftrightarrow> (\<exists>rest. n = p @ a @ rest)"
  by (auto simp: startsWith_iff)

lemma startsWith_prv:
  "startsWith n (utf16 ''prv'') \<and> startsWith (drop 3 n) a
     \<longleftrightarrow> (\<exists>rest. n = utf16 ''prv'' @ a @ rest)"
  using startsWith_two [of n "utf16 ''prv''" a] by (simp add: eval_nat_numeral)

lemma drop_prv [simp]: "drop (3 + length a) (utf16 ''prv'' @ a @ rest) = rest"
  by (simp add: eval_nat_numeral)

lemma drop_prv3 [simp]: "drop 3 (utf16 ''prv'' @ a) = a"
  by (simp add: eval_nat_numeral)

lemma actionMatch_None_iff:
  "actionMatch n = None \<longleftrightarrow>
     \<not> (\<exists>a\<in>set actionVocabulary. \<exists>rest.
           n = utf16 ''prv'' @ a @ rest \<and> \<not> list_ex lineTerminator rest)"
proof (cases "startsWith n (utf16 ''prv'')")
  case False
  then show ?thesis
    by (auto simp: actionMatch_def startsWith_iff)
next
  case True
  have eq: "(startsWith (drop 3 n) a \<and> \<not> list_ex lineTerminator (drop (3 + length a) n))
      \<longleftrightarrow> (\<exists>rest. n = utf16 ''prv'' @ a @ rest \<and> \<not> list_ex lineTerminator rest)" for a
  proof
    assume h: "startsWith (drop 3 n) a \<and> \<not> list_ex lineTerminator (drop (3 + length a) n)"
    with True startsWith_prv [of n a] obtain rest where r: "n = utf16 ''prv'' @ a @ rest"
      by blast
    then have "drop (3 + length a) n = rest" by (simp only: drop_prv)
    with h r show "\<exists>rest. n = utf16 ''prv'' @ a @ rest \<and> \<not> list_ex lineTerminator rest"
      by metis
  next
    assume "\<exists>rest. n = utf16 ''prv'' @ a @ rest \<and> \<not> list_ex lineTerminator rest"
    then obtain rest where r: "n = utf16 ''prv'' @ a @ rest"
      and nl: "\<not> list_ex lineTerminator rest"
      by blast
    from r have "drop 3 n = a @ rest" "drop (3 + length a) n = rest"
      by (simp_all only: drop_prv drop_prv3)
    with nl show "startsWith (drop 3 n) a \<and> \<not> list_ex lineTerminator (drop (3 + length a) n)"
      by simp
  qed
  let ?P = "\<lambda>a. startsWith (drop 3 n) a \<and> \<not> list_ex lineTerminator (drop (3 + length a) n)"
  have "actionMatch n = None \<longleftrightarrow> find ?P actionVocabulary = None"
    using True by (simp add: actionMatch_def split: option.splits)
  also have "\<dots> \<longleftrightarrow> \<not> (\<exists>a\<in>set actionVocabulary. ?P a)"
    by (simp only: find_None_iff bex_simps) blast
  also have "\<dots> \<longleftrightarrow> \<not> (\<exists>a\<in>set actionVocabulary. \<exists>rest. n = utf16 ''prv'' @ a @ rest
      \<and> \<not> list_ex lineTerminator rest)"
    by (simp only: eq)
  finally show ?thesis .
qed












text \<open>
  Claim C10. Every privilege of a parsed role has a defined \<open>entity\<close>, and its
  \<open>action\<close> is undefined exactly when the name does not match the pattern
  \<^verbatim>\<open>^prv(Action)(.*)$\<close>: it is not \<^verbatim>\<open>prv\<close>, a vocabulary action, and a rest free of
  the line terminators U+000A, U+000D, U+2028 and U+2029. The entity is the
  second component of the decomposition of the name.
\<close>

theorem privilege_entity_defined:
  assumes "p \<in> set (r_privileges (parseRole node))"
  shows "p_entity p = Some (snd (decomposePrivilege (p_name p)))
    \<and> p_entity p \<noteq> None
    \<and> (p_action p = None \<longleftrightarrow>
         \<not> (\<exists>a\<in>set actionVocabulary. \<exists>rest.
               p_name p = utf16 ''prv'' @ a @ rest \<and> \<not> list_ex lineTerminator rest))"
proof -
  from assms obtain q where p: "p = parsePrivilege q"
    by (auto simp: parseRole_def)
  have "p_action p = None \<longleftrightarrow> actionMatch (p_name p) = None"
    by (auto simp: p parsePrivilege_def Let_def decomposePrivilege_def split: option.splits)
  then show ?thesis
    by (simp add: actionMatch_None_iff p parsePrivilege_def Let_def)
qed

theorem privilege_entity_defined_witness:
  "list_all (\<lambda>p. p_entity p \<noteq> None) (r_privileges (parseRole separatorRoleNode))
   \<and> map p_action (r_privileges (parseRole separatorRoleNode))
       = [Some (utf16 ''Read''), None, None, None]
   \<and> map p_entity (r_privileges (parseRole separatorRoleNode))
       = [Some (utf16 ''Account''), Some (utf16 ''customPrivilege''),
          Some (utf16 ''Read'' @ [0x2028] @ utf16 ''Account''),
          Some (utf16 ''Write'' @ [0x0D])]"
proof -
  let ?ps = "r_privileges (parseRole separatorRoleNode)"
  have a: "map p_action ?ps = [Some (utf16 ''Read''), None, None, None]"
    by (simp add: parseRole_def separatorRoleNode_def parsePrivilege_def orElse_def
        decomposePrivilege_def actionMatch_def startsWith_def actionVocabulary_def
        lineTerminator_def Let_def utf16_def)
  have b: "map p_entity ?ps = [Some (utf16 ''Account''), Some (utf16 ''customPrivilege''),
          Some (utf16 ''Read'' @ [0x2028] @ utf16 ''Account''),
          Some (utf16 ''Write'' @ [0x0D])]"
    by (simp add: parseRole_def separatorRoleNode_def parsePrivilege_def orElse_def
        decomposePrivilege_def actionMatch_def startsWith_def actionVocabulary_def
        lineTerminator_def Let_def utf16_def substring_def)
  have "\<forall>p\<in>set ?ps. p_entity p \<noteq> None"
    using privilege_entity_defined [of _ separatorRoleNode] by blast
  with a b show ?thesis by (simp only: list_all_iff simp_thms)
qed

section \<open>Verification: the final deduplication pass\<close>


lemma findIndex_Some:
  "findIndex p xs = Some i \<Longrightarrow> i < length xs \<and> p (xs ! i) \<and> find p xs = Some (xs ! i)"
  by (induction xs arbitrary: i) (auto split: if_splits)

lemma find_findIndex:
  "find p xs = Some x \<Longrightarrow> \<exists>i. findIndex p xs = Some i \<and> i < length xs \<and> xs ! i = x"
proof (induction xs)
  case Nil
  then show ?case by simp
next
  case (Cons y ys)
  show ?case
  proof (cases "p y")
    case True
    with Cons.prems show ?thesis by auto
  next
    case False
    with Cons obtain i where "findIndex p ys = Some i" "i < length ys" "ys ! i = x"
      by auto
    with False show ?thesis by auto
  qed
qed

lemma set_filterIndexed:
  "set (filterIndexed q xs) = {xs ! i | i. i < length xs \<and> q (xs ! i) i}"
  by (auto simp: filterIndexed_def in_set_zip image_iff) force

lemma in_dedupeById:
  "c \<in> set (dedupeById cs) \<longleftrightarrow> find (\<lambda>t. c_id t = c_id c) cs = Some c"
proof
  assume "c \<in> set (dedupeById cs)"
  then obtain i where "i < length cs" "c = cs ! i"
    "findIndex (\<lambda>t. c_id t = c_id c) cs = Some i"
    by (auto simp: dedupeById_def set_filterIndexed)
  then show "find (\<lambda>t. c_id t = c_id c) cs = Some c"
    using findIndex_Some [of "\<lambda>t. c_id t = c_id c" cs i] by simp
next
  assume "find (\<lambda>t. c_id t = c_id c) cs = Some c"
  from find_findIndex [OF this] show "c \<in> set (dedupeById cs)"
    by (auto simp: dedupeById_def set_filterIndexed)
qed

lemma distinct_dedupeById: "distinct (map c_id (dedupeById cs))"
proof -
  let ?q = "\<lambda>(v, i). findIndex (\<lambda>t. c_id t = c_id v) cs = Some i"
  let ?zs = "filter ?q (zip cs [0..<length cs])"
  have d: "distinct ?zs"
    by (simp add: distinct_zipI2)
  have "inj_on (c_id \<circ> fst) (set ?zs)"
  proof (rule inj_onI)
    fix a b
    assume a: "a \<in> set ?zs" and b: "b \<in> set ?zs" and e: "(c_id \<circ> fst) a = (c_id \<circ> fst) b"
    obtain v i where av: "a = (v, i)" by (cases a)
    obtain w j where bw: "b = (w, j)" by (cases b)
    from a av have 1: "v = cs ! i" "findIndex (\<lambda>t. c_id t = c_id v) cs = Some i"
      by (auto simp: in_set_zip)
    from b bw have 2: "w = cs ! j" "findIndex (\<lambda>t. c_id t = c_id w) cs = Some j"
      by (auto simp: in_set_zip)
    from e av bw have "c_id v = c_id w" by simp
    with 1 2 have "i = j" by (metis option.inject)
    with 1 2 av bw show "a = b" by simp
  qed
  with d have "distinct (map (c_id \<circ> fst) ?zs)"
    by (simp add: distinct_map)
  then show ?thesis
    by (simp add: dedupeById_def filterIndexed_def)
qed

lemma ids_dedupeById: "set (map c_id (dedupeById cs)) = set (map c_id cs)"
proof
  show "set (map c_id (dedupeById cs)) \<subseteq> set (map c_id cs)"
    by (auto simp: dedupeById_def set_filterIndexed)
next
  show "set (map c_id cs) \<subseteq> set (map c_id (dedupeById cs))"
  proof
    fix k assume "k \<in> set (map c_id cs)"
    then obtain c where c: "c \<in> set cs" "c_id c = k" by auto
    then obtain x where x: "find (\<lambda>t. c_id t = k) cs = Some x"
      by (cases "find (\<lambda>t. c_id t = k) cs") (auto simp: find_None_iff)
    then have xk: "c_id x = k" by (auto simp: find_Some_iff)
    with x have "x \<in> set (dedupeById cs)" by (simp add: in_dedupeById)
    with xk show "k \<in> set (map c_id (dedupeById cs))" by auto
  qed
qed



text \<open>
  Claim C3. The components of the metadata returned by \<^verbatim>\<open>parseSolutionZip\<close>
  have pairwise distinct ids, whatever the archive and the documents hold. The
  final pass keeps every id of its input, and keeps a component exactly when
  it is the first one of the input with its id.
\<close>

theorem final_components_unique_ids:
  "distinct (map c_id (sm_components (s_metadata (parseSolutionZip pf entries))))
   \<and> distinct (map c_id (dedupeById components))
   \<and> set (map c_id (dedupeById components)) = set (map c_id components)
   \<and> (\<forall>c. c \<in> set (dedupeById components)
          \<longleftrightarrow> find (\<lambda>t. c_id t = c_id c) components = Some c)"
  by (simp add: parseSolutionZip_def Let_def distinct_dedupeById ids_dedupeById
      in_dedupeById del: set_map)

theorem final_components_unique_ids_witness:
  "map c_displayName (dedupeById exampleComponents) = [''First'', ''Second'']
   \<and> distinct (map c_id (dedupeById exampleComponents))
   \<and> find (\<lambda>t. c_id t = ''a'') exampleComponents = Some (exampleComponents ! 0)
   \<and> exampleComponents ! 0 \<in> set (dedupeById exampleComponents)
   \<and> exampleComponents ! 2 \<notin> set (dedupeById exampleComponents)"
proof -
  have e: "map c_displayName (dedupeById exampleComponents) = [''First'', ''Second'']"
    by (simp add: dedupeById_def filterIndexed_def exampleComponents_def upt_rec)
  have f: "find (\<lambda>t. c_id t = ''a'') exampleComponents = Some (exampleComponents ! 0)"
    by (simp add: exampleComponents_def)
  have i0: "c_id (exampleComponents ! 0) = ''a''" and i2: "c_id (exampleComponents ! 2) = ''a''"
    and ne: "exampleComponents ! 2 \<noteq> exampleComponents ! 0"
    by (simp_all add: exampleComponents_def)
  from final_components_unique_ids [of examplePlatform baseEntries exampleComponents]
  have d: "distinct (map c_id (dedupeById exampleComponents))"
    and m: "\<And>c. c \<in> set (dedupeById exampleComponents)
          \<longleftrightarrow> find (\<lambda>t. c_id t = c_id c) exampleComponents = Some c"
    by blast+
  from m [of "exampleComponents ! 0"] f i0
  have k0: "exampleComponents ! 0 \<in> set (dedupeById exampleComponents)" by simp
  from m [of "exampleComponents ! 2"] f i2 ne
  have k2: "exampleComponents ! 2 \<notin> set (dedupeById exampleComponents)" by simp
  from e d f k0 k2 show ?thesis by blast
qed


section \<open>Verification: the archive reader\<close>


lemma endsWith_iff: "endsWith s p \<longleftrightarrow> (\<exists>r. s = r @ p)"
proof
  assume "endsWith s p"
  then have "s = take (length s - length p) s @ p"
    by (metis append_take_drop_id endsWith_def)
  then show "\<exists>r. s = r @ p" ..
next
  assume "\<exists>r. s = r @ p"
  then show "endsWith s p" by (auto simp: endsWith_def)
qed

lemma splitOn_nonempty [simp]: "splitOn sep s \<noteq> []"
  by (induction s) (auto split: list.splits)

lemma splitOn_no_separator: "sep \<notin> set s \<Longrightarrow> splitOn sep s = [s]"
  by (induction s) auto

lemma length_splitOn: "length (splitOn sep s) = Suc (length (filter (\<lambda>c. c = sep) s))"
  by (induction s) (auto split: list.splits)

lemma last_splitOn: "sep \<notin> set ys \<Longrightarrow> last (splitOn sep (xs @ sep # ys)) = ys"
proof (induction xs)
  case Nil
  then show ?case by (simp add: splitOn_no_separator)
next
  case (Cons x xs)
  have "length (splitOn sep (xs @ sep # ys)) \<ge> 2"
    by (simp add: length_splitOn)
  then obtain w v vs where "splitOn sep (xs @ sep # ys) = w # v # vs"
    by (cases "splitOn sep (xs @ sep # ys)" rule: list.exhaust; simp)
       (metis Suc_le_length_iff length_Cons list.size(3) not_less_eq_eq numeral_2_eq_2 le0 neq_Nil_conv)
  with Cons show ?case by auto
qed

lemma extensionOf_msapp:
  assumes "endsWith p ''.msapp''"
  shows "extensionOf p = ''msapp''"
proof -
  from assms obtain r where "p = r @ CHR ''.'' # ''msapp''"
    by (auto simp: endsWith_iff)
  then have "last (splitOn CHR ''.'' p) = ''msapp''"
    using last_splitOn [of "CHR ''.''" "''msapp''" r] by simp
  then show ?thesis
    by (simp add: extensionOf_def pop_def orElse_def toLowerCase_def toLowerChar_def)
qed

text \<open>
  Claim C7, as stated, fails: a file of an extension that is not text-decodable
  and is not \<^verbatim>\<open>.msapp\<close> keeps its decoded text. For the entry
  \<^verbatim>\<open>WebResources/logo.png\<close> the file has type \<^verbatim>\<open>other\<close>, and its content is the
  decoded text of the entry, not the binary marker.
\<close>

theorem binary_marker_counterexample:
  "\<not> z_dir pngEntry
   \<and> extensionOf (z_relativePath pngEntry) = ''png''
   \<and> f_type (toSolutionFile pngEntry) = OtherFile
   \<and> f_content (toSolutionFile pngEntry) = z_text pngEntry
   \<and> f_content (toSolutionFile pngEntry) \<noteq> ''[Binary Content]''"
  by (simp add: pngEntry_def toSolutionFile_def readEntry_def endsWith_def extensionOf_def
      pop_def orElse_def toLowerCase_def toLowerChar_def fileTypeOf_def)

text \<open>
  Claim C7, amended. Every archive entry becomes a file typed by the
  lower-cased extension of its path. A file of a text-decodable extension
  (xml, xaml, json, js, css) holds the decoded text. The binary marker replaces
  the content exactly when the path ends in \<^verbatim>\<open>.msapp\<close> (such a file has type
  \<^verbatim>\<open>other\<close>); every other file, whatever its extension, holds the decoded text.
\<close>

theorem archive_entry_content:
  "f_type (toSolutionFile e) = fileTypeOf (extensionOf (z_relativePath e))
   \<and> (extensionOf (z_relativePath e) \<in> {''xml'', ''xaml'', ''json'', ''js'', ''css''} \<longrightarrow>
        f_content (toSolutionFile e) = z_text e \<and> f_type (toSolutionFile e) \<noteq> OtherFile)
   \<and> (endsWith (z_relativePath e) ''.msapp'' \<longrightarrow>
        f_content (toSolutionFile e) = ''[Binary Content]''
        \<and> f_type (toSolutionFile e) = OtherFile)
   \<and> (\<not> endsWith (z_relativePath e) ''.msapp'' \<longrightarrow>
        f_content (toSolutionFile e) = z_text e)"
proof -
  have t: "f_type (toSolutionFile e) = fileTypeOf (extensionOf (z_relativePath e))"
    by (simp add: toSolutionFile_def)
  have m: "endsWith (z_relativePath e) ''.msapp'' \<Longrightarrow>
      f_content (toSolutionFile e) = ''[Binary Content]'' \<and> f_type (toSolutionFile e) = OtherFile"
    by (simp add: toSolutionFile_def readEntry_def extensionOf_msapp fileTypeOf_def)
  have n: "\<not> endsWith (z_relativePath e) ''.msapp'' \<Longrightarrow> f_content (toSolutionFile e) = z_text e"
    by (simp add: toSolutionFile_def readEntry_def)
  have x: "extensionOf (z_relativePath e) \<in> {''xml'', ''xaml'', ''json'', ''js'', ''css''} \<Longrightarrow>
      \<not> endsWith (z_relativePath e) ''.msapp'' \<and> f_type (toSolutionFile e) \<noteq> OtherFile"
    using extensionOf_msapp [of "z_relativePath e"] t by (auto simp: fileTypeOf_def)
  from t m n x show ?thesis by blast
qed

theorem archive_entry_content_witness:
  "f_content (toSolutionFile msappEntry) = ''[Binary Content]''
   \<and> f_type (toSolutionFile msappEntry) = OtherFile
   \<and> f_content (toSolutionFile xmlEntry) = ''<ImportExportXml/>''
   \<and> f_type (toSolutionFile xmlEntry) = Xml
   \<and> f_content (toSolutionFile pngEntry) = ''PNG image data''"
proof -
  have a: "endsWith (z_relativePath msappEntry) ''.msapp''"
    by (simp add: msappEntry_def endsWith_def)
  have b: "extensionOf (z_relativePath xmlEntry) = ''xml''"
    by (simp add: xmlEntry_def extensionOf_def pop_def orElse_def toLowerCase_def
        toLowerChar_def)
  have c: "\<not> endsWith (z_relativePath pngEntry) ''.msapp''"
    by (simp add: pngEntry_def endsWith_def)
  have t: "z_text xmlEntry = ''<ImportExportXml/>''" "z_text pngEntry = ''PNG image data''"
    by (simp_all add: xmlEntry_def pngEntry_def)
  have x: "fileTypeOf ''xml'' = Xml"
    by (simp add: fileTypeOf_def)
  from a archive_entry_content [of msappEntry]
  have 1: "f_content (toSolutionFile msappEntry) = ''[Binary Content]''
      \<and> f_type (toSolutionFile msappEntry) = OtherFile"
    by blast
  from b archive_entry_content [of xmlEntry]
  have 2: "f_content (toSolutionFile xmlEntry) = z_text xmlEntry
      \<and> f_type (toSolutionFile xmlEntry) = fileTypeOf ''xml''"
    by simp
  from c archive_entry_content [of pngEntry]
  have 3: "f_content (toSolutionFile pngEntry) = z_text pngEntry"
    by blast
  from 1 2 3 t x show ?thesis by simp
qed


section \<open>Verification: reconciliation of parser contributions\<close>


lemma findIndex_None: "findIndex p xs = None \<longleftrightarrow> (\<forall>x\<in>set xs. \<not> p x)"
  by (induction xs) auto

lemma mutateFound_findIndex:
  "mutateFound p f xs =
     (case findIndex p xs of None \<Rightarrow> None | Some i \<Rightarrow> Some (xs[i := f (xs ! i)]))"
  by (induction xs) (auto split: option.splits)

lemma mutateFound_None: "mutateFound p f xs = None \<longleftrightarrow> (\<forall>x\<in>set xs. \<not> p x)"
  by (induction xs) auto

lemma mutateFound_again:
  assumes "\<And>x. p x \<Longrightarrow> p (f x) \<and> f (f x) = f x"
  shows "mutateFound p f xs = Some ys \<Longrightarrow> mutateFound p f ys = Some ys"
proof (induction xs arbitrary: ys)
  case Nil
  then show ?case by simp
next
  case (Cons x xs)
  show ?case
  proof (cases "p x")
    case True
    with Cons.prems assms [of x] show ?thesis by auto
  next
    case False
    with Cons.prems obtain zs where "mutateFound p f xs = Some zs" "ys = x # zs"
      by auto
    with Cons.IH False show ?thesis by simp
  qed
qed

lemma mutateFound_append_new:
  "mutateFound p f xs = None \<Longrightarrow> p new \<Longrightarrow> mutateFound p f (xs @ [new]) = Some (xs @ [f new])"
  by (induction xs) (auto split: if_splits)

lemma merge_idem:
  assumes "\<And>x. p x \<Longrightarrow> p (f x) \<and> f (f x) = f x" and "p new" and "f new = new"
  shows "(case mutateFound p f (case mutateFound p f xs of Some m \<Rightarrow> m | None \<Rightarrow> xs @ [new]) of
            Some m \<Rightarrow> m
          | None \<Rightarrow> (case mutateFound p f xs of Some m \<Rightarrow> m | None \<Rightarrow> xs @ [new]) @ [new])
         = (case mutateFound p f xs of Some m \<Rightarrow> m | None \<Rightarrow> xs @ [new])"
proof (cases "mutateFound p f xs")
  case None
  from mutateFound_append_new [OF None assms(2)] assms(3) None show ?thesis by simp
next
  case (Some ys)
  from mutateFound_again [of p f xs ys] assms(1) Some show ?thesis by simp
qed

lemma merge_existing:
  "findIndex p cs = Some i \<Longrightarrow>
     (case mutateFound p f cs of Some m \<Rightarrow> m | None \<Rightarrow> cs @ [new]) = cs[i := f (cs ! i)]"
  by (simp add: mutateFound_findIndex)

lemma foldl_setAdd_set: "set (foldl setAdd acc xs) = set acc \<union> set xs"
  by (induction xs arbitrary: acc) (auto simp: setAdd_def)

lemma foldl_setAdd_distinct: "distinct acc \<Longrightarrow> distinct (foldl setAdd acc xs)"
  by (induction xs arbitrary: acc) (auto simp: setAdd_def)

lemma foldl_setAdd_absorb: "set xs \<subseteq> set acc \<Longrightarrow> foldl setAdd acc xs = acc"
  by (induction xs arbitrary: acc) (auto simp: setAdd_def)

lemma foldl_setAdd_fresh: "distinct (acc @ xs) \<Longrightarrow> foldl setAdd acc xs = acc @ xs"
  by (induction xs arbitrary: acc) (auto simp: setAdd_def)

lemma set_arrayFromSet [simp]: "set (arrayFromSet xs) = set xs"
  by (simp add: arrayFromSet_def foldl_setAdd_set)

lemma distinct_arrayFromSet [simp]: "distinct (arrayFromSet xs)"
  by (simp add: arrayFromSet_def foldl_setAdd_distinct)

lemma arrayFromSet_distinct: "distinct xs \<Longrightarrow> arrayFromSet xs = xs"
  using foldl_setAdd_fresh [of "[]" xs] by (simp add: arrayFromSet_def)

lemma arrayFromSet_absorb:
  "distinct xs \<Longrightarrow> set ys \<subseteq> set xs \<Longrightarrow> arrayFromSet (xs @ ys) = xs"
  by (simp add: arrayFromSet_def foldl_setAdd_fresh [of "[]" xs, simplified] foldl_setAdd_absorb)

lemma arrayFromSet_twice:
  "arrayFromSet (arrayFromSet (xs @ ys) @ ys) = arrayFromSet (xs @ ys)"
  by (rule arrayFromSet_absorb) auto

lemma mergeRole_idem: "mergeRole node (mergeRole node cs) = mergeRole node cs"
  unfolding mergeRole_def Let_def by (rule merge_idem) simp_all

lemma mergeTable_idem: "mergeTable files node (mergeTable files node cs) = mergeTable files node cs"
  unfolding mergeTable_def Let_def by (rule merge_idem) simp_all

lemma mergeModelApp_idem:
  "mergeModelApp files node (mergeModelApp files node cs) = mergeModelApp files node cs"
  unfolding mergeModelApp_def Let_def by (rule merge_idem) simp_all

lemma mergeCanvasApp_idem:
  "mergeCanvasApp files meta (mergeCanvasApp files meta cs) = mergeCanvasApp files meta cs"
  unfolding mergeCanvasApp_def Let_def by (rule merge_idem) simp_all

lemma mergeFlow_idem:
  assumes "distinct (map f_path files)"
  shows "mergeFlow files node (mergeFlow files node cs) = mergeFlow files node cs"
  unfolding mergeFlow_def Let_def
proof (rule merge_idem, goal_cases)
  case (1 x)
  then show ?case by (simp add: arrayFromSet_twice)
next
  case 2
  show ?case by simp
next
  case 3
  let ?A = "\<lambda>f. includes_str (f_path f) (normalizedFileName node)"
  let ?B = "\<lambda>f. includes_str (f_path f) (orElse (wf_workflowId node) [])"
  have d: "distinct (map f_path (filter (\<lambda>f. ?A f \<or> ?B f) files))"
    using assms by (simp add: distinct_map_filter)
  have s: "set (map f_path (filter ?A files))
      \<subseteq> set (map f_path (filter (\<lambda>f. ?A f \<or> ?B f) files))"
    by auto
  from arrayFromSet_absorb [OF d s] show ?case by simp
qed

lemma seedRootComponent_idem:
  "seedRootComponent files node (seedRootComponent files node cs) = seedRootComponent files node cs"
  by (simp add: seedRootComponent_def Let_def list_ex_iff)


text \<open>
  Claim C8. Merging one parser contribution twice gives the components that
  merging it once gives: for a root component, a role, a table, a model-driven
  app and a canvas app on every component list, and for a cloud flow on every
  component list when the paths of the bundle's files are pairwise distinct (as
  the paths of one archive are). Equal lists have equal \<open>files\<close> and equal fields.
\<close>

theorem reconciliation_idempotent:
  "seedRootComponent files rootNode (seedRootComponent files rootNode cs)
     = seedRootComponent files rootNode cs
   \<and> mergeRole roleNode (mergeRole roleNode cs) = mergeRole roleNode cs
   \<and> mergeTable files entityNode (mergeTable files entityNode cs)
     = mergeTable files entityNode cs
   \<and> mergeModelApp files appNode (mergeModelApp files appNode cs)
     = mergeModelApp files appNode cs
   \<and> mergeCanvasApp files appMeta (mergeCanvasApp files appMeta cs)
     = mergeCanvasApp files appMeta cs
   \<and> (distinct (map f_path files) \<longrightarrow>
        mergeFlow files flowNode (mergeFlow files flowNode cs) = mergeFlow files flowNode cs)"
  by (simp add: seedRootComponent_idem mergeRole_idem mergeTable_idem mergeModelApp_idem
      mergeCanvasApp_idem mergeFlow_idem)

theorem reconciliation_idempotent_witness:
  "mergeFlow exampleFiles exampleFlowNode (mergeFlow exampleFiles exampleFlowNode seededRole)
     = mergeFlow exampleFiles exampleFlowNode seededRole
   \<and> map c_files (mergeFlow exampleFiles exampleFlowNode seededRole)
     = [[''Roles/r1.xml''], [''Workflows/Notify-7A.json'']]
   \<and> mergeRole unnamedRoleNode (mergeRole unnamedRoleNode seededRole)
     = mergeRole unnamedRoleNode seededRole"
proof -
  have d: "distinct (map f_path exampleFiles)"
    by (simp add: exampleFiles_def)
  have f: "map c_files (mergeFlow exampleFiles exampleFlowNode seededRole)
     = [[''Roles/r1.xml''], [''Workflows/Notify-7A.json'']]"
    by (simp add: mergeFlow_def exampleFlowNode_def seededRole_def exampleFiles_def
        normalizedFileName_def orElse_def startsWith_def substring_def Let_def)
  from d f reconciliation_idempotent [of exampleFiles _ seededRole unnamedRoleNode _ _ _
      exampleFlowNode]
  show ?thesis by blast
qed

text \<open>
  Claim C6, as stated, fails: a merge overwrites \<open>displayName\<close> also when the
  incoming value is empty. A role element without a \<^verbatim>\<open>name\<close> attribute merged into
  the component seeded for its id replaces the display name \<^verbatim>\<open>r1\<close> by the empty
  string.
\<close>

theorem merge_empty_name_counterexample:
  "orElse (rn_name unnamedRoleNode) '''' = ''''
   \<and> map c_displayName seededRole = [''r1'']
   \<and> map c_displayName (mergeRole unnamedRoleNode seededRole) = ['''']"
  by (simp add: unnamedRoleNode_def seededRole_def mergeRole_def orElse_def Let_def)

text \<open>
  Claim C6, amended. A merge into an existing record (the first component that
  matches, at index \<open>i\<close>) overwrites \<open>displayName\<close> with the incoming value
  whether or not it is empty; the role, table, model-driven app and canvas app
  merges overwrite \<open>metadata\<close> with the incoming payload, and the canvas app
  merge sets \<open>type\<close> to App. No merge replaces \<open>files\<close>: the cloud flow merge
  sets it to the duplicate-free union of the existing paths and the paths of the
  bundle that contain the flow's file name, and the other merges leave it as it
  is. Every other field and every other component is unchanged.
\<close>

theorem merge_overwrites_unconditionally:
  "(findIndex (\<lambda>c. c_id c = orElse (rn_id roleNode) '''' \<and> c_type c = SecurityRole) cs = Some i
      \<longrightarrow> mergeRole roleNode cs =
        cs[i := (cs ! i)\<lparr> c_displayName := orElse (rn_name roleNode) '''',
                            c_metadata := Some (RoleMeta (parseRole roleNode)) \<rparr>])
   \<and> (findIndex (\<lambda>c. c_logicalName c = e_logicalName (parseEntity entityNode)
                      \<and> c_type c = Table) cs = Some i
      \<longrightarrow> mergeTable files entityNode cs =
        cs[i := (cs ! i)\<lparr> c_displayName := e_displayName (parseEntity entityNode),
                            c_metadata := Some (TableMeta (e_fields (parseEntity entityNode))) \<rparr>])
   \<and> (findIndex (\<lambda>c. c_logicalName c = m_uniqueName (parseAppModule appNode)
                      \<and> c_type c = ModelApp) cs = Some i
      \<longrightarrow> mergeModelApp files appNode cs =
        cs[i := (cs ! i)\<lparr> c_displayName := m_displayName (parseAppModule appNode),
                            c_metadata := Some (ModelMeta (parseAppModule appNode)) \<rparr>])
   \<and> (findIndex (\<lambda>c. c_logicalName c = ca_name appMeta \<or> c_id c = ca_appId appMeta) cs = Some i
      \<longrightarrow> mergeCanvasApp files appMeta cs =
        cs[i := (cs ! i)\<lparr> c_type := App, c_displayName := ca_displayName appMeta,
                            c_metadata := Some (CanvasMeta appMeta) \<rparr>])
   \<and> (findIndex (\<lambda>c. c_id c = orElse (wf_workflowId flowNode) '''') cs = Some i
      \<longrightarrow> (\<exists>fs. mergeFlow files flowNode cs =
              cs[i := (cs ! i)\<lparr> c_displayName := orElse (wf_name flowNode) ''Untitled Flow'',
                                  c_files := fs \<rparr>]
            \<and> distinct fs
            \<and> set fs = set (c_files (cs ! i))
                \<union> {f_path f | f. f \<in> set files
                      \<and> includes_str (f_path f) (normalizedFileName flowNode)}))"
proof -
  have "findIndex (\<lambda>c. c_id c = orElse (wf_workflowId flowNode) '''') cs = Some i \<Longrightarrow>
    mergeFlow files flowNode cs =
      cs[i := (cs ! i)\<lparr> c_displayName := orElse (wf_name flowNode) ''Untitled Flow'',
         c_files := arrayFromSet (c_files (cs ! i) @ map f_path
            (filter (\<lambda>f. includes_str (f_path f) (normalizedFileName flowNode)) files)) \<rparr>]"
    by (simp add: mergeFlow_def Let_def merge_existing)
  moreover have "set (arrayFromSet (c_files (cs ! i) @ map f_path
        (filter (\<lambda>f. includes_str (f_path f) (normalizedFileName flowNode)) files)))
      = set (c_files (cs ! i)) \<union> {f_path f | f. f \<in> set files
            \<and> includes_str (f_path f) (normalizedFileName flowNode)}"
    by auto
  ultimately have flow: "findIndex (\<lambda>c. c_id c = orElse (wf_workflowId flowNode) '''') cs = Some i
      \<longrightarrow> (\<exists>fs. mergeFlow files flowNode cs =
              cs[i := (cs ! i)\<lparr> c_displayName := orElse (wf_name flowNode) ''Untitled Flow'',
                                  c_files := fs \<rparr>]
            \<and> distinct fs
            \<and> set fs = set (c_files (cs ! i))
                \<union> {f_path f | f. f \<in> set files
                      \<and> includes_str (f_path f) (normalizedFileName flowNode)})"
    using distinct_arrayFromSet by blast
  show ?thesis
    using flow
    by (simp add: mergeRole_def mergeTable_def mergeModelApp_def mergeCanvasApp_def Let_def
        merge_existing)
qed

theorem merge_overwrites_unconditionally_witness:
  "mergeRole unnamedRoleNode seededRole =
     [\<lparr> c_id = ''r1'', c_displayName = '''', c_logicalName = ''r1'',
        c_type = SecurityRole, c_description = None, c_files = [''Roles/r1.xml''],
        c_metadata = Some (RoleMeta \<lparr> r_id = ''r1'', r_name = '''', r_isManaged = False,
                                        r_privileges = [] \<rparr>) \<rparr>]
   \<and> map c_files (mergeFlow exampleFiles
        (exampleFlowNode\<lparr> wf_workflowId := Some ''r1'' \<rparr>) seededRole)
      = [[''Roles/r1.xml'', ''Workflows/Notify-7A.json'']]"
proof -
  have i: "findIndex (\<lambda>c. c_id c = orElse (rn_id unnamedRoleNode) ''''
      \<and> c_type c = SecurityRole) seededRole = Some 0"
    by (simp add: unnamedRoleNode_def seededRole_def orElse_def)
  from i merge_overwrites_unconditionally [of unnamedRoleNode seededRole 0]
  have "mergeRole unnamedRoleNode seededRole =
     seededRole[0 := (seededRole ! 0)\<lparr> c_displayName := orElse (rn_name unnamedRoleNode) '''',
        c_metadata := Some (RoleMeta (parseRole unnamedRoleNode)) \<rparr>]"
    by blast
  then have r: "mergeRole unnamedRoleNode seededRole =
     [\<lparr> c_id = ''r1'', c_displayName = '''', c_logicalName = ''r1'',
        c_type = SecurityRole, c_description = None, c_files = [''Roles/r1.xml''],
        c_metadata = Some (RoleMeta \<lparr> r_id = ''r1'', r_name = '''', r_isManaged = False,
                                        r_privileges = [] \<rparr>) \<rparr>]"
    by (simp add: seededRole_def unnamedRoleNode_def orElse_def parseRole_def)
  have f: "map c_files (mergeFlow exampleFiles
        (exampleFlowNode\<lparr> wf_workflowId := Some ''r1'' \<rparr>) seededRole)
      = [[''Roles/r1.xml'', ''Workflows/Notify-7A.json'']]"
    by (simp add: mergeFlow_def exampleFlowNode_def seededRole_def exampleFiles_def
        normalizedFileName_def orElse_def startsWith_def substring_def Let_def arrayFromSet_def
        setAdd_def)
  from r f show ?thesis by simp
qed


section \<open>Verification: quota errors of the oracle call\<close>


lemma attempt_0: "attempt fn s 0 = fst (fn s)"
  by (simp add: attempt_def)

lemma attempt_Suc: "attempt fn s (Suc k) = attempt fn (snd (fn s)) k"
  by (simp add: attempt_def)

lemma quotaFailure_Suc: "quotaFailure message fn s (Suc k) = quotaFailure message fn (snd (fn s)) k"
  by (simp add: quotaFailure_def attempt_Suc)

lemma quotaFailure_0:
  "quotaFailure message fn s 0 \<longleftrightarrow> (\<exists>e. fst (fn s) = Inl e \<and> quotaExhausted message e)"
  by (auto simp: quotaFailure_def attempt_0 split: sum.splits)

declare executeWithRetry.simps [simp del]

lemma all_less_Suc_split: "(\<forall>j<Suc k. P j) \<longleftrightarrow> P 0 \<and> (\<forall>j<k. P (Suc j))"
  by (metis less_Suc_eq_0_disj Suc_less_eq zero_less_Suc)

lemma retry_first_other:
  assumes "k \<le> retries" and "\<forall>j<k. quotaFailure message fn s j"
    and "\<not> quotaFailure message fn s k"
  shows "fst (executeWithRetry message fn retries delay s) =
     (case attempt fn s k of Inl e \<Rightarrow> Inl (OracleError e) | Inr v \<Rightarrow> Inr v)"
  using assms
proof (induction k arbitrary: retries delay s)
  case 0
  then show ?case
    by (subst executeWithRetry.simps)
       (auto simp: quotaFailure_def attempt_0 split: prod.splits sum.splits)
next
  case (Suc k)
  from Suc.prems(2) have q0: "quotaFailure message fn s 0"
    and rest: "\<forall>j<k. quotaFailure message fn (snd (fn s)) j"
    by (simp_all add: all_less_Suc_split quotaFailure_Suc)
  from Suc.prems(3) have nq: "\<not> quotaFailure message fn (snd (fn s)) k"
    by (simp add: quotaFailure_Suc)
  from Suc.prems(1) obtain r where r: "retries = Suc r" "k \<le> r"
    by (cases retries) auto
  from q0 obtain e where e: "fst (fn s) = Inl e" "quotaExhausted message e"
    by (auto simp: quotaFailure_0)
  from Suc.IH [OF r(2) rest nq, of "delay * 2"] e r(1)
  show ?case
    by (subst executeWithRetry.simps)
       (auto simp: attempt_Suc split: prod.splits sum.splits)
qed

lemma retry_all_quota:
  assumes "\<forall>k\<le>retries. quotaFailure message fn s k"
  shows "fst (executeWithRetry message fn retries delay s) =
       Inl (QuotaError ''API rate limit exceeded.'')
     \<and> fst (snd (executeWithRetry message fn retries delay s)) =
       map (\<lambda>i. delay * 2 ^ i) [0..<retries]"
  using assms
proof (induction retries arbitrary: delay s)
  case 0
  then obtain e where "fst (fn s) = Inl e" "quotaExhausted message e"
    by (auto simp: quotaFailure_0)
  then show ?case
    by (subst (1 2) executeWithRetry.simps) (auto split: prod.splits)
next
  case (Suc r)
  from Suc.prems have q0: "quotaFailure message fn s 0"
    and rest: "\<forall>k\<le>r. quotaFailure message fn (snd (fn s)) k"
    by (auto simp: quotaFailure_Suc [symmetric])
  from q0 obtain e where e: "fst (fn s) = Inl e" "quotaExhausted message e"
    by (auto simp: quotaFailure_0)
  have m: "map (\<lambda>i. delay * 2 ^ i) [0..<Suc r] = delay # map (\<lambda>i. delay * 2 * 2 ^ i) [0..<r]"
    by (simp add: upt_rec [of 0] map_Suc_upt [symmetric] del: upt_Suc)
  from Suc.IH [OF rest, of "delay * 2"] e
  show ?case
    unfolding m
    by (subst (1 2) executeWithRetry.simps) (auto split: prod.splits sum.splits)
qed



lemma retry_quota_only:
  assumes "fst (executeWithRetry message fn retries delay s) = Inl (QuotaError m)"
  shows "\<forall>k\<le>retries. quotaFailure message fn s k"
proof (rule ccontr)
  assume "\<not> (\<forall>k\<le>retries. quotaFailure message fn s k)"
  then have ex: "\<exists>k. k \<le> retries \<and> \<not> quotaFailure message fn s k" by blast
  define k where "k = (LEAST k. k \<le> retries \<and> \<not> quotaFailure message fn s k)"
  from ex have kp: "k \<le> retries \<and> \<not> quotaFailure message fn s k"
    unfolding k_def by (rule LeastI_ex)
  have "\<forall>j<k. quotaFailure message fn s j"
  proof (intro allI impI)
    fix j assume "j < k"
    with kp have "j \<le> retries" by simp
    moreover from \<open>j < k\<close> have "\<not> (j \<le> retries \<and> \<not> quotaFailure message fn s j)"
      unfolding k_def by (rule not_less_Least)
    ultimately show "quotaFailure message fn s j" by blast
  qed
  with kp retry_first_other [of k retries message fn s delay]
  have "fst (executeWithRetry message fn retries delay s) =
     (case attempt fn s k of Inl e \<Rightarrow> Inl (OracleError e) | Inr v \<Rightarrow> Inr v)"
    by blast
  with assms show False by (auto split: sum.splits)
qed

text \<open>
  Claim C9. The caller receives \<^verbatim>\<open>QuotaError\<close> exactly when the first call and
  every one of the \<open>retries\<close> retries fail with a quota-exhaustion message (one
  holding \<^verbatim>\<open>429\<close> or \<^verbatim>\<open>RESOURCE_EXHAUSTED\<close>). When the first attempt that is not
  such a failure throws another error, that error reaches the caller as it was
  thrown; when it succeeds, its value is returned.
\<close>

theorem quota_error_surfaced:
  "((\<forall>k\<le>retries. quotaFailure message fn s k) \<longrightarrow>
      fst (executeWithRetry message fn retries delay s)
        = Inl (QuotaError ''API rate limit exceeded.''))
   \<and> (fst (executeWithRetry message fn retries delay s) = Inl (QuotaError m) \<longrightarrow>
        m = ''API rate limit exceeded.'' \<and> (\<forall>k\<le>retries. quotaFailure message fn s k))
   \<and> (k \<le> retries \<and> (\<forall>j<k. quotaFailure message fn s j)
        \<and> attempt fn s k = Inl e \<and> \<not> quotaExhausted message e \<longrightarrow>
        fst (executeWithRetry message fn retries delay s) = Inl (OracleError e))
   \<and> (k \<le> retries \<and> (\<forall>j<k. quotaFailure message fn s j) \<and> attempt fn s k = Inr v \<longrightarrow>
        fst (executeWithRetry message fn retries delay s) = Inr v)"
proof (intro conjI impI)
  assume "\<forall>k\<le>retries. quotaFailure message fn s k"
  then show "fst (executeWithRetry message fn retries delay s)
      = Inl (QuotaError ''API rate limit exceeded.'')"
    by (simp add: retry_all_quota)
next
  assume a: "fst (executeWithRetry message fn retries delay s) = Inl (QuotaError m)"
  from retry_quota_only [OF a] show "\<forall>k\<le>retries. quotaFailure message fn s k" .
  with retry_all_quota [of retries message fn s delay] a
  show "m = ''API rate limit exceeded.''" by simp
next
  assume "k \<le> retries \<and> (\<forall>j<k. quotaFailure message fn s j)
      \<and> attempt fn s k = Inl e \<and> \<not> quotaExhausted message e"
  then show "fst (executeWithRetry message fn retries delay s) = Inl (OracleError e)"
    using retry_first_other [of k retries message fn s delay]
    by (simp add: quotaFailure_def)
next
  assume "k \<le> retries \<and> (\<forall>j<k. quotaFailure message fn s j) \<and> attempt fn s k = Inr v"
  then show "fst (executeWithRetry message fn retries delay s) = Inr v"
    using retry_first_other [of k retries message fn s delay]
    by (simp add: quotaFailure_def)
qed

theorem quota_error_surfaced_witness:
  "fst (executeWithRetry Some alwaysBusy 1 1000 0) = Inl (QuotaError ''API rate limit exceeded.'')
   \<and> fst (executeWithRetry Some busyThenBroken 1 1000 0) = Inl (OracleError ''400 Bad Request'')"
proof -
  have q: "quotaExhausted Some ''got status: 429 RESOURCE_EXHAUSTED''"
    "quotaExhausted Some ''429 Too Many Requests''"
    "\<not> quotaExhausted Some ''400 Bad Request''"
    by (simp_all add: quotaExhausted_def orElse_def startsWith_def)
  have le1: "k \<le> Suc 0 \<longleftrightarrow> k = 0 \<or> k = Suc 0" for k :: nat
    by auto
  have a: "\<forall>k\<le>1. quotaFailure Some alwaysBusy (0::nat) k"
    using q(1) by (auto simp: le1 quotaFailure_def attempt_def alwaysBusy_def)
  have b: "(1::nat) \<le> 1 \<and> (\<forall>j<1. quotaFailure Some busyThenBroken (0::nat) j)
      \<and> attempt busyThenBroken (0::nat) 1 = Inl ''400 Bad Request''
      \<and> \<not> quotaExhausted Some ''400 Bad Request''"
    using q(2,3) by (simp add: quotaFailure_def attempt_def busyThenBroken_def)
  from a quota_error_surfaced [of 1 Some alwaysBusy 0 1000]
  have 1: "fst (executeWithRetry Some alwaysBusy 1 1000 0)
      = Inl (QuotaError ''API rate limit exceeded.'')"
    by blast
  from b quota_error_surfaced [of 1 Some busyThenBroken 0 1000 _ 1 "''400 Bad Request''"]
  have 2: "fst (executeWithRetry Some busyThenBroken 1 1000 0) = Inl (OracleError ''400 Bad Request'')"
    by blast
  from 1 2 show ?thesis by simp
qed


section \<open>Verification: relationship edges\<close>




lemma count_one:
  "distinct (map f xs) \<Longrightarrow> k \<in> set (map f xs) \<Longrightarrow> length (filter (\<lambda>x. f x = k) xs) = 1"
proof (induction xs)
  case Nil
  then show ?case by simp
next
  case (Cons x xs)
  show ?case
  proof (cases "f x = k")
    case True
    with Cons.prems have "k \<notin> f ` set xs" by auto
    then have "filter (\<lambda>x. f x = k) xs = []"
      by (auto simp: filter_empty_conv)
    with True show ?thesis by simp
  next
    case False
    with Cons show ?thesis by auto
  qed
qed

























lemma base_files:
  "map (\<lambda>f. (f_path f, f_content f)) (collectFiles baseEntries) =
     [(''solution.xml'', ''<solution/>''),
      (''customizations.xml'', ''<customizations/>''),
      (''Roles/role1.xml'', ''<Role>Local</Role>''),
      (''Entities/account/Entity.xml'', ''<Entity/>'')]"
  by (simp add: collectFiles_def baseEntries_def textEntry_def toSolutionFile_def readEntry_def
      endsWith_def)


















section \<open>Verification: the file-level diff\<close>


lemma set_insertBy [simp]: "set (insertBy cmp x ys) = insert x (set ys)"
  by (induction ys) auto

lemma sortBy_simps [simp]:
  "sortBy cmp [] = []"
  "sortBy cmp (x # xs) = insertBy cmp x (sortBy cmp xs)"
  by (simp_all add: sortBy_def)

lemma set_sortBy [simp]: "set (sortBy cmp xs) = set xs"
  by (induction xs) simp_all

lemma filter_insertBy:
  "length (filter P (insertBy cmp x ys)) = (if P x then 1 else 0) + length (filter P ys)"
  by (induction ys) auto

lemma filter_sortBy: "length (filter P (sortBy cmp xs)) = length (filter P xs)"
  by (induction xs) (simp_all add: filter_insertBy)

lemma distinct_map_insertBy:
  "distinct (map f (insertBy cmp x ys)) \<longleftrightarrow> f x \<notin> f ` set ys \<and> distinct (map f ys)"
  by (induction ys) auto

lemma distinct_map_sortBy: "distinct (map f (sortBy cmp xs)) \<longleftrightarrow> distinct (map f xs)"
  by (induction xs) (simp_all add: distinct_map_insertBy)

lemma sorted_insertBy:
  assumes "consistentComparator cmp"
  shows "sorted_wrt (\<lambda>x y. cmp x y \<le> 0) ys \<Longrightarrow> sorted_wrt (\<lambda>x y. cmp x y \<le> 0) (insertBy cmp x ys)"
proof (induction ys)
  case Nil
  then show ?case by simp
next
  case (Cons y ys)
  from assms have total: "\<And>a b. cmp a b \<le> 0 \<or> cmp b a \<le> 0"
    and trans: "\<And>a b c. cmp a b \<le> 0 \<Longrightarrow> cmp b c \<le> 0 \<Longrightarrow> cmp a c \<le> 0"
    unfolding consistentComparator_def by blast+
  show ?case
  proof (cases "cmp x y \<le> 0")
    case True
    with Cons.prems trans show ?thesis by auto
  next
    case False
    with total have "cmp y x \<le> 0" by blast
    with False Cons show ?thesis by auto
  qed
qed

lemma sorted_sortBy:
  "consistentComparator cmp \<Longrightarrow> sorted_wrt (\<lambda>x y. cmp x y \<le> 0) (sortBy cmp xs)"
  by (induction xs) (simp_all add: sorted_insertBy)

lemma consistent_on_key:
  "consistentComparator cmp \<Longrightarrow> consistentComparator (\<lambda>x y. cmp (f x) (f y))"
  unfolding consistentComparator_def by blast

lemma consistent_codeUnitCompare: "consistentComparator codeUnitCompare"
  unfolding consistentComparator_def codeUnitCompare_def
  by (auto split: if_splits)

lemma update_fresh: "k \<notin> fst ` set m \<Longrightarrow> AList.update k v m = m @ [(k, v)]"
  by (induction m) auto

lemma set_update_subset: "set (AList.update k v m) \<subseteq> insert (k, v) (set m)"
  by (induction m) auto

lemma foldl_mapSet_fresh:
  "distinct (map fst (m @ kvs)) \<Longrightarrow>
   foldl (\<lambda>m kv. mapSet m (fst kv) (snd kv)) m kvs = m @ kvs"
proof (induction kvs arbitrary: m)
  case Nil
  then show ?case by simp
next
  case (Cons kv kvs)
  from Cons.prems have "fst kv \<notin> fst ` set m" by auto
  then have "mapSet m (fst kv) (snd kv) = m @ [kv]"
    by (simp add: mapSet_def update_fresh)
  with Cons show ?case by simp
qed

lemma foldl_mapSet_subset:
  "set (foldl (\<lambda>m kv. mapSet m (fst kv) (snd kv)) m kvs) \<subseteq> set m \<union> set kvs"
proof (induction kvs arbitrary: m)
  case Nil
  then show ?case by simp
next
  case (Cons kv kvs)
  have "set (mapSet m (fst kv) (snd kv)) \<subseteq> insert kv (set m)"
    using set_update_subset [of "fst kv" "snd kv" m] by (simp add: mapSet_def)
  with Cons.IH [of "mapSet m (fst kv) (snd kv)"] show ?case by auto
qed

lemma newMap_distinct: "distinct (map fst kvs) \<Longrightarrow> newMap kvs = kvs"
  using foldl_mapSet_fresh [of "[]" kvs] by (simp add: newMap_def)

lemma newMap_subset: "set (newMap kvs) \<subseteq> set kvs"
  using foldl_mapSet_subset [of "[]" kvs] by (simp add: newMap_def)

lemma fileIndex_distinct:
  assumes "distinct (map f_path files)"
  shows "fileIndex files = map (\<lambda>f. (f_path f, f)) files"
  using assms by (simp add: fileIndex_def newMap_distinct comp_def)

lemma fileIndex_keys:
  "distinct (map f_path files) \<Longrightarrow> mapKeys (fileIndex files) = map f_path files"
  by (simp add: fileIndex_distinct mapKeys_def comp_def)

lemma fileIndex_get_None:
  "distinct (map f_path files) \<Longrightarrow>
   mapGet (fileIndex files) p = None \<longleftrightarrow> p \<notin> f_path ` set files"
  by (simp add: fileIndex_distinct mapGet_def map_of_eq_None_iff image_image)

lemma fileIndex_get_Some:
  assumes "distinct (map f_path files)"
  shows "mapGet (fileIndex files) p = Some f \<longleftrightarrow> f \<in> set files \<and> f_path f = p"
proof -
  have d: "distinct (map fst (map (\<lambda>f. (f_path f, f)) files))"
    using assms by (simp add: comp_def)
  have "map_of (map (\<lambda>f. (f_path f, f)) files) p = Some f
      \<longleftrightarrow> (p, f) \<in> set (map (\<lambda>f. (f_path f, f)) files)"
    using d by (rule map_of_eq_Some_iff)
  then show ?thesis
    using assms by (auto simp: fileIndex_distinct mapGet_def)
qed

lemma owningComponent_in:
  "owningComponent (componentIndex comps) p = Some c \<Longrightarrow> c \<in> set comps"
proof -
  assume "owningComponent (componentIndex comps) p = Some c"
  then have "c \<in> snd ` set (componentIndex comps)"
    by (auto simp: owningComponent_def mapValues_def find_Some_iff)
  with newMap_subset [of "map (\<lambda>c. (c_id c, c)) comps"] show ?thesis
    by (auto simp: componentIndex_def)
qed

lemma statusOf_Added:
  "statusOf b t = Added \<longleftrightarrow> b = None \<and> t \<noteq> None"
  by (auto simp: statusOf_def)

lemma statusOf_Removed:
  "statusOf b t = Removed \<longleftrightarrow> b \<noteq> None \<and> t = None"
  by (auto simp: statusOf_def)

lemma statusOf_Modified:
  "statusOf b t = Modified \<longleftrightarrow> (\<exists>fb ft. b = Some fb \<and> t = Some ft \<and> f_content fb \<noteq> f_content ft)"
  by (auto simp: statusOf_def)

lemma statusOf_Unchanged:
  "statusOf b t = Unchanged \<longleftrightarrow>
     (b = None \<and> t = None) \<or> (\<exists>fb ft. b = Some fb \<and> t = Some ft \<and> f_content fb = f_content ft)"
  by (auto simp: statusOf_def)

lemma countStatus_fileDiffs [simp]: "a_fileDiffs (countStatus s acc) = a_fileDiffs acc"
  by (cases s) (simp_all add: countStatus_def)

lemma diffPath_result:
  assumes "diffPath bf tf bc tc p acc = Inr acc'"
  shows "map (\<lambda>d. (d_path d, d_status d)) (a_fileDiffs acc') =
     map (\<lambda>d. (d_path d, d_status d)) (a_fileDiffs acc) @
       (if statusOf (mapGet bf p) (mapGet tf p) \<noteq> Unchanged
        then [(p, statusOf (mapGet bf p) (mapGet tf p))] else [])"
  using assms
  by (auto simp: diffPath_def Let_def split: if_splits option.splits sum.splits)

lemma forEachPath_result:
  assumes "forEachPath (diffPath bf tf bc tc) ps acc = Inr acc'"
  shows "map (\<lambda>d. (d_path d, d_status d)) (a_fileDiffs acc') =
     map (\<lambda>d. (d_path d, d_status d)) (a_fileDiffs acc) @
       map (\<lambda>p. (p, statusOf (mapGet bf p) (mapGet tf p)))
         (filter (\<lambda>p. statusOf (mapGet bf p) (mapGet tf p) \<noteq> Unchanged) ps)"
  using assms
proof (induction ps arbitrary: acc)
  case Nil
  then show ?case by simp
next
  case (Cons p ps)
  from Cons.prems obtain acc1 where s: "diffPath bf tf bc tc p acc = Inr acc1"
    and r: "forEachPath (diffPath bf tf bc tc) ps acc1 = Inr acc'"
    by (auto split: sum.splits)
  from Cons.IH [OF r] diffPath_result [OF s] show ?case by simp
qed

lemma logicalDiffOf_returns:
  assumes "\<And>c. baseComp = Some c \<Longrightarrow> c_type c = SecurityRole \<Longrightarrow> c_metadata c \<noteq> None"
    and "\<And>c. targetComp = Some c \<Longrightarrow> c_type c = SecurityRole \<Longrightarrow> c_metadata c \<noteq> None"
  shows "\<exists>ld. logicalDiffOf baseComp targetComp = Inr ld"
  using assms
  by (auto simp: logicalDiffOf_def Let_def privilegesOf_def
      split: option.splits sum.splits Metadata.splits)

lemma diffPath_returns:
  assumes "\<forall>c\<in>set base \<union> set target. c_type c = SecurityRole \<longrightarrow> c_metadata c \<noteq> None"
  shows "\<exists>acc'. diffPath bf tf (componentIndex base) (componentIndex target) p acc = Inr acc'"
proof -
  have "\<exists>ld. logicalDiffOf (owningComponent (componentIndex base) p)
      (owningComponent (componentIndex target) p) = Inr ld"
    using assms by (intro logicalDiffOf_returns) (auto dest: owningComponent_in)
  then obtain ld where ld: "logicalDiffOf (owningComponent (componentIndex base) p)
      (owningComponent (componentIndex target) p) = Inr ld" ..
  show ?thesis
    by (auto simp: diffPath_def Let_def ld statusOf_def split: option.splits)
qed

lemma forEachPath_returns:
  assumes "\<forall>c\<in>set base \<union> set target. c_type c = SecurityRole \<longrightarrow> c_metadata c \<noteq> None"
  shows "\<exists>acc'. forEachPath (diffPath bf tf (componentIndex base) (componentIndex target))
            ps acc = Inr acc'"
proof (induction ps arbitrary: acc)
  case Nil
  show ?case by simp
next
  case (Cons p ps)
  from diffPath_returns [OF assms, of bf tf p acc] obtain acc1
    where "diffPath bf tf (componentIndex base) (componentIndex target) p acc = Inr acc1" ..
  with Cons.IH [of acc1] show ?case by simp
qed

lemma solutionDiff_shape:
  assumes db: "distinct (map f_path (s_files base))"
    and dt: "distinct (map f_path (s_files target))"
    and res: "solutionDiff localeCompare Compare (Some base) (Some target) = Inr (Some d)"
  shows "\<exists>unsorted.
     df_fileDiffs d = sortBy (\<lambda>x y. localeCompare (d_path x) (d_path y)) unsorted
     \<and> map (\<lambda>fd. (d_path fd, d_status fd)) unsorted =
         map (\<lambda>p. (p, statusOf (mapGet (fileIndex (s_files base)) p)
                               (mapGet (fileIndex (s_files target)) p)))
           (filter (\<lambda>p. statusOf (mapGet (fileIndex (s_files base)) p)
                                 (mapGet (fileIndex (s_files target)) p) \<noteq> Unchanged)
              (arrayFromSet (map f_path (s_files base) @ map f_path (s_files target))))"
proof -
  let ?bf = "fileIndex (s_files base)" and ?tf = "fileIndex (s_files target)"
  let ?bc = "componentIndex (sm_components (s_metadata base))"
  let ?tc = "componentIndex (sm_components (s_metadata target))"
  let ?paths = "arrayFromSet (map f_path (s_files base) @ map f_path (s_files target))"
  let ?acc0 = "\<lparr> a_fileDiffs = [], a_added = 0, a_removed = 0, a_modified = 0 \<rparr>"
  have keys: "mapKeys ?bf @ mapKeys ?tf = map f_path (s_files base) @ map f_path (s_files target)"
    using db dt by (simp add: fileIndex_keys)
  from res obtain acc where run: "forEachPath (diffPath ?bf ?tf ?bc ?tc) ?paths ?acc0 = Inr acc"
    and d: "df_fileDiffs d = sortBy (\<lambda>x y. localeCompare (d_path x) (d_path y)) (a_fileDiffs acc)"
    by (auto simp: solutionDiff_def Let_def keys split: sum.splits)
  from forEachPath_result [OF run] d show ?thesis by auto
qed

lemma solutionDiff_returns:
  assumes "\<forall>c\<in>set (sm_components (s_metadata base)) \<union> set (sm_components (s_metadata target)).
      c_type c = SecurityRole \<longrightarrow> c_metadata c \<noteq> None"
  shows "\<exists>d. solutionDiff localeCompare Compare (Some base) (Some target) = Inr (Some d)"
proof -
  let ?bf = "fileIndex (s_files base)" and ?tf = "fileIndex (s_files target)"
  from forEachPath_returns [OF assms, of ?bf ?tf "arrayFromSet (mapKeys ?bf @ mapKeys ?tf)"
      "\<lparr> a_fileDiffs = [], a_added = 0, a_removed = 0, a_modified = 0 \<rparr>"]
  obtain acc where "forEachPath (diffPath ?bf ?tf
      (componentIndex (sm_components (s_metadata base)))
      (componentIndex (sm_components (s_metadata target))))
      (arrayFromSet (mapKeys ?bf @ mapKeys ?tf))
      \<lparr> a_fileDiffs = [], a_added = 0, a_removed = 0, a_modified = 0 \<rparr> = Inr acc" ..
  then show ?thesis
    by (simp add: solutionDiff_def Let_def)
qed

text \<open>
  The file-level diff, where the engine returns one. Take two ingested models
  whose file paths are pairwise distinct within each model, and a consistent
  collation \<^verbatim>\<open>localeCompare\<close>. The engine returns a diff whenever every security
  role component carries metadata (a role component without metadata can make
  it throw, as the last section shows). Whenever it returns a diff, every entry
  is about a path of the union; its status is \<open>added\<close> exactly when only the target has the path, \<open>removed\<close> exactly
  when only the base has it, \<open>modified\<close> exactly when both have it with
  different contents, and never \<open>unchanged\<close>; a path has an entry exactly when
  it is not unchanged; no two entries share a path, so a path present on
  exactly one side has exactly one entry; and the entries are sorted ascending
  by path in the collation order.
\<close>

theorem file_diff_classification:
  assumes cmp: "consistentComparator localeCompare"
    and db: "distinct (map f_path (s_files base))"
    and dt: "distinct (map f_path (s_files target))"
  shows
    "((\<forall>c\<in>set (sm_components (s_metadata base)) \<union> set (sm_components (s_metadata target)).
         c_type c = SecurityRole \<longrightarrow> c_metadata c \<noteq> None)
      \<longrightarrow> (\<exists>d. solutionDiff localeCompare Compare (Some base) (Some target) = Inr (Some d)))
     \<and> (\<forall>d. solutionDiff localeCompare Compare (Some base) (Some target) = Inr (Some d) \<longrightarrow>
          (\<forall>fd\<in>set (df_fileDiffs d).
              d_path fd \<in> f_path ` set (s_files base) \<union> f_path ` set (s_files target)
              \<and> (d_status fd = Added \<longleftrightarrow> d_path fd \<notin> f_path ` set (s_files base))
              \<and> (d_status fd = Removed \<longleftrightarrow> d_path fd \<notin> f_path ` set (s_files target))
              \<and> (d_status fd = Modified \<longleftrightarrow>
                   (\<exists>fb\<in>set (s_files base). \<exists>ft\<in>set (s_files target).
                      f_path fb = d_path fd \<and> f_path ft = d_path fd
                      \<and> f_content fb \<noteq> f_content ft))
              \<and> d_status fd \<noteq> Unchanged)
          \<and> (\<forall>p. (\<exists>fd\<in>set (df_fileDiffs d). d_path fd = p) \<longleftrightarrow>
                 p \<in> f_path ` set (s_files base) \<union> f_path ` set (s_files target)
                 \<and> \<not> (\<exists>fb\<in>set (s_files base). \<exists>ft\<in>set (s_files target).
                        f_path fb = p \<and> f_path ft = p \<and> f_content fb = f_content ft))
          \<and> distinct (map d_path (df_fileDiffs d))
          \<and> (\<forall>p. (p \<in> f_path ` set (s_files base)) \<noteq> (p \<in> f_path ` set (s_files target))
                 \<longrightarrow> length (filter (\<lambda>fd. d_path fd = p) (df_fileDiffs d)) = 1)
          \<and> sorted_wrt (\<lambda>x y. localeCompare (d_path x) (d_path y) \<le> 0) (df_fileDiffs d))"
proof (intro conjI allI impI)
  assume "\<forall>c\<in>set (sm_components (s_metadata base)) \<union> set (sm_components (s_metadata target)).
         c_type c = SecurityRole \<longrightarrow> c_metadata c \<noteq> None"
  then show "\<exists>d. solutionDiff localeCompare Compare (Some base) (Some target) = Inr (Some d)"
    by (rule solutionDiff_returns)
next
  fix d
  assume res: "solutionDiff localeCompare Compare (Some base) (Some target) = Inr (Some d)"
  let ?B = "f_path ` set (s_files base)" and ?T = "f_path ` set (s_files target)"
  let ?st = "\<lambda>p. statusOf (mapGet (fileIndex (s_files base)) p)
                         (mapGet (fileIndex (s_files target)) p)"
  let ?paths = "arrayFromSet (map f_path (s_files base) @ map f_path (s_files target))"
  let ?same = "\<lambda>p. \<exists>fb\<in>set (s_files base). \<exists>ft\<in>set (s_files target).
                  f_path fb = p \<and> f_path ft = p \<and> f_content fb = f_content ft"
  from solutionDiff_shape [OF db dt res] obtain unsorted where
    sorted: "df_fileDiffs d = sortBy (\<lambda>x y. localeCompare (d_path x) (d_path y)) unsorted"
    and pairs: "map (\<lambda>fd. (d_path fd, d_status fd)) unsorted =
         map (\<lambda>p. (p, ?st p)) (filter (\<lambda>p. ?st p \<noteq> Unchanged) ?paths)"
    by blast
  have paths: "set ?paths = ?B \<union> ?T" by simp
  have added: "?st p = Added \<longleftrightarrow> p \<notin> ?B \<and> p \<in> ?T" for p
    using fileIndex_get_None [OF db, of p] fileIndex_get_None [OF dt, of p]
    by (simp add: statusOf_Added)
  have removed: "?st p = Removed \<longleftrightarrow> p \<in> ?B \<and> p \<notin> ?T" for p
    using fileIndex_get_None [OF db, of p] fileIndex_get_None [OF dt, of p]
    by (simp add: statusOf_Removed)
  have modified: "?st p = Modified \<longleftrightarrow>
      (\<exists>fb\<in>set (s_files base). \<exists>ft\<in>set (s_files target).
          f_path fb = p \<and> f_path ft = p \<and> f_content fb \<noteq> f_content ft)" for p
    using fileIndex_get_Some [OF db, of p] fileIndex_get_Some [OF dt, of p]
    by (auto simp: statusOf_Modified)
  have unchanged: "p \<in> ?B \<union> ?T \<Longrightarrow> ?st p = Unchanged \<longleftrightarrow> ?same p" for p
    using fileIndex_get_Some [OF db, of p] fileIndex_get_Some [OF dt, of p]
      fileIndex_get_None [OF db, of p] fileIndex_get_None [OF dt, of p]
    by (auto simp: statusOf_Unchanged)
  have paths_of: "map d_path unsorted = filter (\<lambda>p. ?st p \<noteq> Unchanged) ?paths"
  proof -
    have "map d_path unsorted = map fst (map (\<lambda>fd. (d_path fd, d_status fd)) unsorted)"
      by (simp add: comp_def)
    also have "\<dots> = filter (\<lambda>p. ?st p \<noteq> Unchanged) ?paths"
      unfolding pairs by (simp add: comp_def)
    finally show ?thesis .
  qed
  have entry: "d_path fd \<in> ?B \<union> ?T \<and> d_status fd = ?st (d_path fd) \<and> ?st (d_path fd) \<noteq> Unchanged"
    if "fd \<in> set unsorted" for fd
  proof -
    from that have "(d_path fd, d_status fd) \<in> set (map (\<lambda>fd. (d_path fd, d_status fd)) unsorted)"
      by auto
    then have "(d_path fd, d_status fd)
        \<in> set (map (\<lambda>p. (p, ?st p)) (filter (\<lambda>p. ?st p \<noteq> Unchanged) ?paths))"
      unfolding pairs .
    with paths show ?thesis by auto
  qed
  have set_sorted: "set (df_fileDiffs d) = set unsorted"
    by (simp add: sorted)
  show "\<forall>fd\<in>set (df_fileDiffs d).
      d_path fd \<in> ?B \<union> ?T
      \<and> (d_status fd = Added \<longleftrightarrow> d_path fd \<notin> ?B)
      \<and> (d_status fd = Removed \<longleftrightarrow> d_path fd \<notin> ?T)
      \<and> (d_status fd = Modified \<longleftrightarrow>
           (\<exists>fb\<in>set (s_files base). \<exists>ft\<in>set (s_files target).
              f_path fb = d_path fd \<and> f_path ft = d_path fd \<and> f_content fb \<noteq> f_content ft))
      \<and> d_status fd \<noteq> Unchanged"
  proof
    fix fd assume "fd \<in> set (df_fileDiffs d)"
    with set_sorted have "fd \<in> set unsorted" by simp
    from entry [OF this] added [of "d_path fd"] removed [of "d_path fd"]
      modified [of "d_path fd"]
    show "d_path fd \<in> ?B \<union> ?T
      \<and> (d_status fd = Added \<longleftrightarrow> d_path fd \<notin> ?B)
      \<and> (d_status fd = Removed \<longleftrightarrow> d_path fd \<notin> ?T)
      \<and> (d_status fd = Modified \<longleftrightarrow>
           (\<exists>fb\<in>set (s_files base). \<exists>ft\<in>set (s_files target).
              f_path fb = d_path fd \<and> f_path ft = d_path fd \<and> f_content fb \<noteq> f_content ft))
      \<and> d_status fd \<noteq> Unchanged"
      by auto
  qed
  have present: "(\<exists>fd\<in>set (df_fileDiffs d). d_path fd = p) \<longleftrightarrow> p \<in> ?B \<union> ?T \<and> \<not> ?same p" for p
  proof -
    have "(\<exists>fd\<in>set (df_fileDiffs d). d_path fd = p) \<longleftrightarrow> p \<in> set (map d_path unsorted)"
      using set_sorted by auto
    also have "\<dots> \<longleftrightarrow> p \<in> ?B \<union> ?T \<and> ?st p \<noteq> Unchanged"
      unfolding paths_of using paths by auto
    also have "\<dots> \<longleftrightarrow> p \<in> ?B \<union> ?T \<and> \<not> ?same p"
      using unchanged [of p] by blast
    finally show ?thesis .
  qed
  then show "(\<exists>fd\<in>set (df_fileDiffs d). d_path fd = p) \<longleftrightarrow>
      p \<in> ?B \<union> ?T \<and> \<not> ?same p" for p .
  have dist: "distinct (map d_path (df_fileDiffs d))"
    unfolding sorted distinct_map_sortBy paths_of by simp
  then show "distinct (map d_path (df_fileDiffs d))" .
  show "length (filter (\<lambda>fd. d_path fd = p) (df_fileDiffs d)) = 1"
    if "(p \<in> ?B) \<noteq> (p \<in> ?T)" for p
  proof -
    have both: "p \<in> ?B \<and> p \<in> ?T" if same: "?same p"
    proof -
      from same obtain fb ft where "fb \<in> set (s_files base)" "ft \<in> set (s_files target)"
        "f_path fb = p" "f_path ft = p"
        by blast
      then show ?thesis by (metis imageI)
    qed
    from that have "p \<in> ?B \<union> ?T" by (cases "p \<in> ?B") simp_all
    moreover from that both have "\<not> ?same p" by (cases "p \<in> ?B") auto
    ultimately have "p \<in> ?B \<union> ?T \<and> \<not> ?same p" ..
    with present [of p] have "p \<in> set (map d_path (df_fileDiffs d))" by auto
    with dist show ?thesis by (rule count_one)
  qed
  have "consistentComparator (\<lambda>x y. localeCompare (d_path x) (d_path y))"
    using cmp by (rule consistent_on_key)
  then show "sorted_wrt (\<lambda>x y. localeCompare (d_path x) (d_path y) \<le> 0) (df_fileDiffs d)"
    unfolding sorted by (rule sorted_sortBy)
qed


section \<open>Verification: the diff on ingested bundles\<close>

lemma consistent_caseFoldCompare: "consistentComparator caseFoldCompare"
proof -
  have "caseFoldCompare = (\<lambda>x y. codeUnitCompare (toLowerCase x) (toLowerCase y))"
    by (simp add: caseFoldCompare_def fun_eq_iff)
  with consistent_on_key [OF consistent_codeUnitCompare, of toLowerCase] show ?thesis
    by simp
qed

lemma role_example_roles:
  "list_all (\<lambda>c. c_type c \<noteq> SecurityRole \<or> \<not> Option.is_none (c_metadata c))
     (sm_components (s_metadata roleBase) @ sm_components (s_metadata roleTarget))"
  by code_simp

lemma role_example_paths:
  "distinct (map f_path (s_files roleBase))" "distinct (map f_path (s_files roleTarget))"
  by code_simp+

lemma role_example_diff:
  "(case solutionDiff caseFoldCompare Compare (Some roleBase) (Some roleTarget) of
      Inr (Some d) \<Rightarrow> map (\<lambda>fd. (d_path fd, d_status fd)) (df_fileDiffs d)
    | _ \<Rightarrow> []) =
   [(''customizations.xml'', Modified),
    (''Entities/contact/Entity.xml'', Added),
    (''Roles/role1.xml'', Modified)]"
  by code_simp

text \<open>
  The diff of the two versions of the bundle whose descriptor holds the role:
  the descriptor and the role file are modified, the contact entity's file is
  added, the solution descriptor and the account entity's file are unchanged
  and have no entry.
\<close>

theorem file_diff_classification_example:
  "\<exists>d. solutionDiff caseFoldCompare Compare (Some roleBase) (Some roleTarget) = Inr (Some d)
     \<and> map (\<lambda>fd. (d_path fd, d_status fd)) (df_fileDiffs d) =
         [(''customizations.xml'', Modified),
          (''Entities/contact/Entity.xml'', Added),
          (''Roles/role1.xml'', Modified)]
     \<and> sorted_wrt (\<lambda>x y. caseFoldCompare (d_path x) (d_path y) \<le> 0) (df_fileDiffs d)
     \<and> distinct (map d_path (df_fileDiffs d))
     \<and> list_all (\<lambda>fd. d_status fd \<noteq> Unchanged) (df_fileDiffs d)"
proof -
  have roles: "\<forall>c\<in>set (sm_components (s_metadata roleBase))
        \<union> set (sm_components (s_metadata roleTarget)).
      c_type c = SecurityRole \<longrightarrow> c_metadata c \<noteq> None"
    using role_example_roles by (auto simp: list_all_iff Option.is_none_def)
  note main = file_diff_classification [OF consistent_caseFoldCompare role_example_paths]
  from main [THEN conjunct1, THEN mp, OF roles] obtain d
    where d: "solutionDiff caseFoldCompare Compare (Some roleBase) (Some roleTarget) = Inr (Some d)"
    ..
  note P = main [THEN conjunct2, THEN spec, THEN mp, OF d]
  note entries = P [THEN conjunct1]
  have props:
    "sorted_wrt (\<lambda>x y. caseFoldCompare (d_path x) (d_path y) \<le> 0) (df_fileDiffs d)"
    "distinct (map d_path (df_fileDiffs d))"
    using P [THEN conjunct2, THEN conjunct2, THEN conjunct2, THEN conjunct2]
      P [THEN conjunct2, THEN conjunct2, THEN conjunct1]
    by this+
  have changed: "\<forall>fd\<in>set (df_fileDiffs d). d_status fd \<noteq> Unchanged"
  proof
    fix fd assume "fd \<in> set (df_fileDiffs d)"
    with entries have "d_path fd \<in> f_path ` set (s_files roleBase) \<union> f_path ` set (s_files roleTarget)
        \<and> (d_status fd = Added \<longleftrightarrow> d_path fd \<notin> f_path ` set (s_files roleBase))
        \<and> (d_status fd = Removed \<longleftrightarrow> d_path fd \<notin> f_path ` set (s_files roleTarget))
        \<and> (d_status fd = Modified \<longleftrightarrow>
             (\<exists>fb\<in>set (s_files roleBase). \<exists>ft\<in>set (s_files roleTarget).
                f_path fb = d_path fd \<and> f_path ft = d_path fd
                \<and> f_content fb \<noteq> f_content ft))
        \<and> d_status fd \<noteq> Unchanged"
      by (rule bspec)
    then show "d_status fd \<noteq> Unchanged" by (elim conjE)
  qed
  from role_example_diff d
  have "map (\<lambda>fd. (d_path fd, d_status fd)) (df_fileDiffs d) =
         [(''customizations.xml'', Modified),
          (''Entities/contact/Entity.xml'', Added),
          (''Roles/role1.xml'', Modified)]"
    by simp
  with d props changed show ?thesis
    by (simp add: list_all_iff)
qed

text \<open>
  Claim C1 fails on the code where a changed path is owned, on both sides, by a
  security role component without metadata. In the two versions of the bundle
  whose descriptor does not hold the role, \<^verbatim>\<open>Entities/contact/Entity.xml\<close> is in
  the target only and the engine's own classification of it is \<open>added\<close>, and
  \<^verbatim>\<open>Roles/role1.xml\<close> is on both sides with different contents; but the loop over
  the paths throws a TypeError at \<^verbatim>\<open>Roles/role1.xml\<close>, so the engine returns no
  diff, whatever the collation: the target-only path has no \<open>added\<close> entry.
\<close>

theorem file_diff_aborted_by_role_without_metadata:
  "map f_path (s_files bareBase) =
     [''solution.xml'', ''customizations.xml'', ''Roles/role1.xml'',
      ''Entities/account/Entity.xml'']
   \<and> map f_path (s_files bareTarget) =
     [''solution.xml'', ''customizations.xml'', ''Roles/role1.xml'',
      ''Entities/account/Entity.xml'', ''Entities/contact/Entity.xml'']
   \<and> statusOf (mapGet (fileIndex (s_files bareBase)) ''Entities/contact/Entity.xml'')
        (mapGet (fileIndex (s_files bareTarget)) ''Entities/contact/Entity.xml'') = Added
   \<and> statusOf (mapGet (fileIndex (s_files bareBase)) ''Roles/role1.xml'')
        (mapGet (fileIndex (s_files bareTarget)) ''Roles/role1.xml'') = Modified
   \<and> solutionDiff localeCompare Compare (Some bareBase) (Some bareTarget) = Inl TypeError"
proof -
  have paths: "map f_path (s_files bareBase) =
     [''solution.xml'', ''customizations.xml'', ''Roles/role1.xml'',
      ''Entities/account/Entity.xml'']"
    "map f_path (s_files bareTarget) =
     [''solution.xml'', ''customizations.xml'', ''Roles/role1.xml'',
      ''Entities/account/Entity.xml'', ''Entities/contact/Entity.xml'']"
    by code_simp+
  have status:
    "statusOf (mapGet (fileIndex (s_files bareBase)) ''Entities/contact/Entity.xml'')
        (mapGet (fileIndex (s_files bareTarget)) ''Entities/contact/Entity.xml'') = Added"
    "statusOf (mapGet (fileIndex (s_files bareBase)) ''Roles/role1.xml'')
        (mapGet (fileIndex (s_files bareTarget)) ''Roles/role1.xml'') = Modified"
    by code_simp+
  have "(case solutionDiff localeCompare Compare (Some bareBase) (Some bareTarget) of
           Inl e \<Rightarrow> e = TypeError | Inr d \<Rightarrow> False)"
    by code_simp
  then have "solutionDiff localeCompare Compare (Some bareBase) (Some bareTarget) = Inl TypeError"
    by (simp split: sum.splits)
  with paths status show ?thesis by simp
qed

text \<open>
  Claim C2 fails on the code where a security role component has no metadata.
  The bundle below lists the role \<^verbatim>\<open>role1\<close> as a root component of the solution
  descriptor and has no \<^verbatim>\<open>Role\<close> element for it in the customization
  descriptor, so ingestion gives, on both sides, a component of type
  SecurityRole that owns \<^verbatim>\<open>Roles/role1.xml\<close> and has no metadata. The file
  differs between the two versions, and the diff throws a TypeError instead of
  producing a logical diff.
\<close>

theorem role_diff_missing_metadata:
  "map (\<lambda>c. (c_id c, c_type c, c_files c, Option.is_none (c_metadata c)))
       (sm_components (s_metadata bareBase)) =
     [(''role1'', SecurityRole, [''Roles/role1.xml''], True),
      (''account'', Table, [''Entities/account/Entity.xml''], False),
      (''contact'', Table, [], False)]
   \<and> map (\<lambda>c. (c_id c, c_type c, c_files c, Option.is_none (c_metadata c)))
       (sm_components (s_metadata bareTarget)) =
     [(''role1'', SecurityRole, [''Roles/role1.xml''], True),
      (''account'', Table, [''Entities/account/Entity.xml''], False),
      (''contact'', Table, [''Entities/contact/Entity.xml''], False)]
   \<and> fileContent (s_files bareBase) ''Roles/role1.xml'' = Some ''<Role>Local</Role>''
   \<and> fileContent (s_files bareTarget) ''Roles/role1.xml'' = Some ''<Role>Global</Role>''
   \<and> solutionDiff codeUnitCompare Compare (Some bareBase) (Some bareTarget) = Inl TypeError"
proof -
  have comps: "map (\<lambda>c. (c_id c, c_type c, c_files c, Option.is_none (c_metadata c)))
       (sm_components (s_metadata bareBase)) =
     [(''role1'', SecurityRole, [''Roles/role1.xml''], True),
      (''account'', Table, [''Entities/account/Entity.xml''], False),
      (''contact'', Table, [], False)]"
    "map (\<lambda>c. (c_id c, c_type c, c_files c, Option.is_none (c_metadata c)))
       (sm_components (s_metadata bareTarget)) =
     [(''role1'', SecurityRole, [''Roles/role1.xml''], True),
      (''account'', Table, [''Entities/account/Entity.xml''], False),
      (''contact'', Table, [''Entities/contact/Entity.xml''], False)]"
    by code_simp+
  have files: "fileContent (s_files bareBase) ''Roles/role1.xml'' = Some ''<Role>Local</Role>''"
    "fileContent (s_files bareTarget) ''Roles/role1.xml'' = Some ''<Role>Global</Role>''"
    by code_simp+
  have "(case solutionDiff codeUnitCompare Compare (Some bareBase) (Some bareTarget) of
           Inl e \<Rightarrow> e = TypeError | Inr d \<Rightarrow> False)"
    by code_simp
  then have "solutionDiff codeUnitCompare Compare (Some bareBase) (Some bareTarget) = Inl TypeError"
    by (simp split: sum.splits)
  with comps files show ?thesis by simp
qed

end
